theory Spec2Isabelle
  imports Complex_Main
begin

section \<open>Documents of the booking backend\<close>

text \<open>
  Modelled from the spec: the Mongoose schemas (\<^verbatim>\<open>models/user.model.js\<close>,
  \<^verbatim>\<open>models/activity.model.js\<close>, \<^verbatim>\<open>models/booking.model.js\<close>) are not among the
  sources. The documents have the fields of the spec's data model (section 3), which are the
  fields the route handlers of \<^verbatim>\<open>src/routes\<close> read and write.

  A collection is the list of its documents in storage order; every document carries its
  \<^verbatim>\<open>_id\<close>, an abstract identifier. MongoDB keeps the \<^verbatim>\<open>_id\<close>s of a collection
  unique; the theorems that depend on it assume the ids distinct. A JavaScript
  \<^verbatim>\<open>Date\<close> is its time value (milliseconds since the epoch): two valid dates have the
  same \<^verbatim>\<open>toISOString()\<close> exactly when their time values are equal, and every stored
  slot has a valid date. The counters \<^verbatim>\<open>availableSpots\<close> and
  \<^verbatim>\<open>numberOfParticipants\<close> are JavaScript numbers holding integers (of magnitude below
  \<open>2\<^sup>5\<^sup>3\<close>, where adding and subtracting small integers is exact), so they are
  integers here; the price is only ever copied. Reads and writes of the store succeed: a
  failure of the database itself is not modelled.
\<close>

type_synonym object_id = nat

type_synonym js_date = int

record slot_time =
  date :: js_date
  startTime :: string
  endTime :: string

record schedule_slot = slot_time +
  availableSpots :: int

record activity =
  activity_id :: object_id
  title :: string
  description :: string
  price :: real
  duration :: int
  capacity :: int
  location :: string
  isActive :: bool
  schedule :: "schedule_slot list"

record booking =
  booking_id :: object_id
  booking_user :: object_id
  booking_activity :: object_id
  booking_schedule :: slot_time
  numberOfParticipants :: int
  totalPrice :: real
  status :: string
  paymentStatus :: string

record user =
  user_id :: object_id
  name :: string
  email :: string
  password :: string
  phone :: string
  role :: string

record store =
  users :: "user list"
  activities :: "activity list"
  bookings :: "booking list"

text \<open>
  What the \<^verbatim>\<open>Booking\<close> constructor adds to the fields the handler passes: the fresh
  \<^verbatim>\<open>_id\<close> and the schema defaults of \<^verbatim>\<open>status\<close> and \<^verbatim>\<open>paymentStatus\<close>. The schema
  (\<^verbatim>\<open>models/booking.model.js\<close>) is not among the sources, so these are parameters.
\<close>

record booking_init =
  init_id :: object_id
  init_status :: string
  init_paymentStatus :: string

section \<open>Responses\<close>

text \<open>
  A validation error names the place of the request body it is about and carries the
  message of the failed check, as the entries of \<^verbatim>\<open>errors.array()\<close> do.
\<close>

datatype field_path = Body string | Slot nat string

type_synonym verror = "field_path \<times> string"

datatype failure =
  ValidationError "verror list"
  | NotFound
  | NoAvailability
  | AlreadyCancelled
  | UserExists
  | ServerError

fun http_status :: "failure \<Rightarrow> nat" where
  "http_status (ValidationError errors) = 400"
| "http_status NotFound = 404"
| "http_status NoAvailability = 400"
| "http_status AlreadyCancelled = 400"
| "http_status UserExists = 400"
| "http_status ServerError = 500"

text \<open>The status code of a response: \<open>ok\<close> is the code the handler sends on success.\<close>

definition response_status :: "nat \<Rightarrow> failure + 'a \<Rightarrow> nat" where
  "response_status ok r = (case r of Inl e \<Rightarrow> http_status e | Inr _ \<Rightarrow> ok)"

section \<open>Array and collection primitives\<close>

text \<open>
  \<^verbatim>\<open>Array.prototype.find\<close> returns a reference to the first element that satisfies the
  predicate, and the handlers then assign to a field of that element. The reference is
  its index.
\<close>

fun find_index :: "('a \<Rightarrow> bool) \<Rightarrow> 'a list \<Rightarrow> nat option" where
  "find_index P [] = None"
| "find_index P (x # xs) = (if P x then Some 0 else map_option Suc (find_index P xs))"

text \<open>
  \<^verbatim>\<open>doc.save()\<close> of a document that was read from the collection writes it back under
  its \<^verbatim>\<open>_id\<close>; \<open>idf\<close> reads the \<^verbatim>\<open>_id\<close> of a document.
\<close>

fun save :: "('d \<Rightarrow> object_id) \<Rightarrow> 'd \<Rightarrow> 'd list \<Rightarrow> 'd list" where
  "save idf d [] = [d]"
| "save idf d (x # xs) = (if idf x = idf d then d # xs else x # save idf d xs)"

section \<open>Validation primitives\<close>

text \<open>
  The checks of express-validator that are plain string functions are written out. A body
  field is the string the validator sees, \<open>None\<close> when the field is \<^verbatim>\<open>undefined\<close>
  (which the validators read as the empty string). Strings are ASCII.
\<close>

definition to_str :: "string option \<Rightarrow> string" where
  "to_str v = (case v of None \<Rightarrow> [] | Some s \<Rightarrow> s)"

definition check :: "bool \<Rightarrow> field_path \<Rightarrow> string \<Rightarrow> verror list" where
  "check ok path msg = (if ok then [] else [(path, msg)])"

definition is_space :: "char \<Rightarrow> bool" where
  "is_space c \<longleftrightarrow> c \<in> set [CHR '' '', CHR 0x09, CHR 0x0A, CHR 0x0B, CHR 0x0C, CHR 0x0D]"

definition trim :: "string \<Rightarrow> string" where
  "trim s = rev (dropWhile is_space (rev (dropWhile is_space s)))"

definition isLength :: "nat \<Rightarrow> nat \<Rightarrow> string \<Rightarrow> bool" where
  "isLength lo hi s \<longleftrightarrow> lo \<le> length s \<and> length s \<le> hi"

definition is_digit :: "char \<Rightarrow> bool" where
  "is_digit c \<longleftrightarrow> c \<in> set ''0123456789''"

definition is_letter :: "char \<Rightarrow> bool" where
  "is_letter c \<longleftrightarrow>
     c \<in> set ''ABCDEFGHIJKLMNOPQRSTUVWXYZ'' \<or> c \<in> set ''abcdefghijklmnopqrstuvwxyz''"

text \<open>The pattern \<^verbatim>\<open>/^([0-1]?[0-9]|2[0-3]):[0-5][0-9]$/\<close> of the two time fields.\<close>

fun matches_time :: "string \<Rightarrow> bool" where
  "matches_time [h, c, m1, m2] \<longleftrightarrow>
     is_digit h \<and> c = CHR '':'' \<and> m1 \<in> set ''012345'' \<and> is_digit m2"
| "matches_time [h1, h2, c, m1, m2] \<longleftrightarrow>
     ((h1 \<in> set ''01'' \<and> is_digit h2) \<or> (h1 = CHR ''2'' \<and> h2 \<in> set ''0123'')) \<and>
     c = CHR '':'' \<and> m1 \<in> set ''012345'' \<and> is_digit m2"
| "matches_time s \<longleftrightarrow> False"

text \<open>
  The pattern \<^verbatim>\<open>/^(?=.*[A-Za-z])(?=.*\d)[A-Za-z\d@$!%*#?&]{6,}$/\<close> of the password and
  the pattern \<^verbatim>\<open>/^[0-9]{10}$/\<close> of the phone number.
\<close>

definition matches_password :: "string \<Rightarrow> bool" where
  "matches_password s \<longleftrightarrow>
     list_ex is_letter s \<and> list_ex is_digit s \<and>
     list_all (\<lambda>c. is_letter c \<or> is_digit c \<or> c \<in> set ''@$!%*#?&'') s \<and> 6 \<le> length s"

definition matches_phone :: "string \<Rightarrow> bool" where
  "matches_phone s \<longleftrightarrow> length s = 10 \<and> list_all is_digit s"

text \<open>
  The checks that validator.js decides by parsing (numbers, dates, e-mail addresses) and its
  \<^verbatim>\<open>normalizeEmail\<close> are not part of the sources; the routes are modelled for any
  behaviour of them.
\<close>

record validator_js =
  isFloat_min :: "int \<Rightarrow> string \<Rightarrow> bool"
  isInt_min :: "int \<Rightarrow> string \<Rightarrow> bool"
  isInt_min_max :: "int \<Rightarrow> int \<Rightarrow> string \<Rightarrow> bool"
  isISO8601 :: "string \<Rightarrow> bool"

record email_js =
  isEmail :: "string \<Rightarrow> bool"
  normalizeEmail :: "string \<Rightarrow> string"

section \<open>Booking routes\<close>

text \<open>
  \<^verbatim>\<open>POST /bookings\<close> (\<^verbatim>\<open>booking.routes.js\<close>, lines 41 to 97). \<open>uid\<close> is
  \<^verbatim>\<open>req.user._id\<close> as the \<^verbatim>\<open>auth\<close> middleware set it; \<open>activityId\<close> is
  \<^verbatim>\<open>req.body.activityId\<close>, \<open>None\<close> when it is missing or empty (the
  \<^verbatim>\<open>notEmpty\<close> check).
\<close>

definition create_booking ::
  "booking_init \<Rightarrow> object_id \<Rightarrow> object_id option \<Rightarrow> store \<Rightarrow> (failure + booking) \<times> store" where
  "create_booking M uid activityId st =
    (case activityId of
       None \<Rightarrow> (Inl (ValidationError [(Body ''activityId'', ''Activity ID is required'')]), st)
     | Some aid \<Rightarrow>
       (case find (\<lambda>a. activity_id a = aid \<and> isActive a) (activities st) of
          None \<Rightarrow> (Inl NotFound, st)
        | Some act \<Rightarrow>
          (case find_index (\<lambda>slot. availableSpots slot > 0) (schedule act) of
             None \<Rightarrow> (Inl NoAvailability, st)
           | Some i \<Rightarrow>
             (let scheduleSlot = schedule act ! i;
                  total = price act;
                  b = \<lparr>booking_id = init_id M,
                       booking_user = uid,
                       booking_activity = aid,
                       booking_schedule =
                         \<lparr>date = date scheduleSlot,
                          startTime = startTime scheduleSlot,
                          endTime = endTime scheduleSlot\<rparr>,
                       numberOfParticipants = 1,
                       totalPrice = total,
                       status = init_status M,
                       paymentStatus = init_paymentStatus M\<rparr>;
                  st1 = st\<lparr>bookings := bookings st @ [b]\<rparr>;
                  act' = act\<lparr>schedule := (schedule act)
                    [i := scheduleSlot\<lparr>availableSpots := availableSpots scheduleSlot - 1\<rparr>]\<rparr>
              in (Inr b, st1\<lparr>activities := save activity_id act' (activities st1)\<rparr>)))))"

text \<open>
  The status code of the answer of \<^verbatim>\<open>POST /bookings\<close>: \<^verbatim>\<open>res.status(201)\<close> on
  success (line 89), the code of the failure otherwise.
\<close>

definition create_booking_status :: "failure + booking \<Rightarrow> nat" where
  "create_booking_status r = response_status 201 r"

text \<open>
  \<^verbatim>\<open>PATCH /bookings/:id/cancel\<close> (lines 100 to 137). The booking is saved as cancelled
  before the activity is read; when \<^verbatim>\<open>Activity.findById\<close> yields \<^verbatim>\<open>null\<close>, reading
  \<^verbatim>\<open>activity.schedule\<close> throws and the \<^verbatim>\<open>catch\<close> answers 500.
\<close>

definition same_slot :: "slot_time \<Rightarrow> schedule_slot \<Rightarrow> bool" where
  "same_slot snap slot \<longleftrightarrow>
     date slot = date snap \<and> startTime slot = startTime snap \<and> endTime slot = endTime snap"

definition cancel_booking :: "object_id \<Rightarrow> object_id \<Rightarrow> store \<Rightarrow> (failure + unit) \<times> store" where
  "cancel_booking uid bid st =
    (case find (\<lambda>b. booking_id b = bid \<and> booking_user b = uid) (bookings st) of
       None \<Rightarrow> (Inl NotFound, st)
     | Some b0 \<Rightarrow>
       if status b0 = ''cancelled'' then (Inl AlreadyCancelled, st)
       else
         (let b = b0\<lparr>status := ''cancelled'', paymentStatus := ''refunded''\<rparr>;
              st1 = st\<lparr>bookings := save booking_id b (bookings st)\<rparr>
          in case find (\<lambda>a. activity_id a = booking_activity b) (activities st1) of
               None \<Rightarrow> (Inl ServerError, st1)
             | Some act \<Rightarrow>
               (case find_index (same_slot (booking_schedule b)) (schedule act) of
                  None \<Rightarrow> (Inr (), st1)
                | Some i \<Rightarrow>
                  (let scheduleSlot = schedule act ! i;
                       act' = act\<lparr>schedule := (schedule act)
                         [i := scheduleSlot\<lparr>availableSpots :=
                            availableSpots scheduleSlot + numberOfParticipants b\<rparr>]\<rparr>
                   in (Inr (), st1\<lparr>activities := save activity_id act' (activities st1)\<rparr>)))))"

text \<open>
  \<^verbatim>\<open>PATCH /bookings/:id/status\<close> (lines 140 to 171), after \<^verbatim>\<open>adminAuth\<close>. The two
  body fields are the strings the \<^verbatim>\<open>isIn\<close> checks see.
\<close>

definition update_status ::
  "object_id \<Rightarrow> string \<Rightarrow> string \<Rightarrow> store \<Rightarrow> (failure + booking) \<times> store" where
  "update_status bid new_status new_paymentStatus st =
    (let errors =
        check (new_status \<in> set [''pending'', ''confirmed'', ''cancelled''])
          (Body ''status'') ''Invalid status'' @
        check (new_paymentStatus \<in> set [''pending'', ''paid'', ''refunded''])
          (Body ''paymentStatus'') ''Invalid payment status''
     in if errors \<noteq> [] then (Inl (ValidationError errors), st)
     else
       (case find_index (\<lambda>b. booking_id b = bid) (bookings st) of
          None \<Rightarrow> (Inl NotFound, st)
        | Some k \<Rightarrow>
          (let b = (bookings st ! k)\<lparr>status := new_status, paymentStatus := new_paymentStatus\<rparr>
           in (Inr b, st\<lparr>bookings := (bookings st)[k := b]\<rparr>))))"

section \<open>Activity routes\<close>

text \<open>
  \<^verbatim>\<open>GET /activities\<close> (\<^verbatim>\<open>activity.routes.js\<close>, lines 9 to 24): the active
  activities, each projected to a summary that shows the first schedule slot only.
\<close>

record activity_summary =
  summary_id :: object_id
  summary_title :: string
  summary_description :: string
  summary_location :: string
  summary_date :: "js_date option"
  summary_time :: "string option"

definition formatted :: "activity \<Rightarrow> activity_summary" where
  "formatted a =
     \<lparr>summary_id = activity_id a,
      summary_title = title a,
      summary_description = description a,
      summary_location = location a,
      summary_date = (case schedule a of [] \<Rightarrow> None | s # _ \<Rightarrow> Some (date s)),
      summary_time =
        (case schedule a of [] \<Rightarrow> None | s # _ \<Rightarrow> Some (startTime s @ '' - '' @ endTime s))\<rparr>"

definition list_active :: "store \<Rightarrow> activity_summary list" where
  "list_active st = map formatted (filter isActive (activities st))"

text \<open>\<^verbatim>\<open>GET /activities/:id\<close> (lines 27 to 37).\<close>

definition get_by_id :: "object_id \<Rightarrow> store \<Rightarrow> failure + activity" where
  "get_by_id aid st =
     (case find (\<lambda>a. activity_id a = aid) (activities st) of
        None \<Rightarrow> Inl NotFound
      | Some a \<Rightarrow> Inr a)"

text \<open>
  \<^verbatim>\<open>DELETE /activities/:id\<close> (lines 143 to 159), after \<^verbatim>\<open>adminAuth\<close>:
  \<^verbatim>\<open>findByIdAndUpdate(id, { isActive: false })\<close>.
\<close>

definition soft_delete :: "object_id \<Rightarrow> store \<Rightarrow> (failure + unit) \<times> store" where
  "soft_delete aid st =
     (case find_index (\<lambda>a. activity_id a = aid) (activities st) of
        None \<Rightarrow> (Inl NotFound, st)
      | Some k \<Rightarrow>
        (Inr (), st\<lparr>activities := (activities st)[k := (activities st ! k)\<lparr>isActive := False\<rparr>]\<rparr>))"

text \<open>The request body of activity create and update, as the validators see it.\<close>

record slot_body =
  sb_date :: "string option"
  sb_startTime :: "string option"
  sb_endTime :: "string option"
  sb_availableSpots :: "string option"

record activity_body =
  b_title :: "string option"
  b_description :: "string option"
  b_price :: "string option"
  b_duration :: "string option"
  b_capacity :: "string option"
  b_location :: "string option"
  b_schedule :: "slot_body list option"

text \<open>A wildcard chain \<^verbatim>\<open>schedule.*.field\<close> runs its check on every slot of the array.\<close>

definition each_slot ::
  "(slot_body \<Rightarrow> bool) \<Rightarrow> string \<Rightarrow> string \<Rightarrow> activity_body \<Rightarrow> verror list" where
  "each_slot ok field msg body =
     concat (map (\<lambda>(i, s). check (ok s) (Slot i field) msg)
       (enumerate 0 (case b_schedule body of None \<Rightarrow> [] | Some slots \<Rightarrow> slots)))"

text \<open>The validation chains of \<^verbatim>\<open>POST /activities\<close> (lines 42 to 72), in their order.\<close>

definition create_validators :: "validator_js \<Rightarrow> activity_body \<Rightarrow> verror list" where
  "create_validators V body =
     (let v = trim (to_str (b_title body)) in
        check (v \<noteq> []) (Body ''title'') ''Title is required'' @
        check (isLength 3 100 v) (Body ''title'') ''Title must be between 3 and 100 characters'') @
     (let v = trim (to_str (b_description body)) in
        check (v \<noteq> []) (Body ''description'') ''Description is required'' @
        check (isLength 10 1000 v) (Body ''description'')
          ''Description must be between 10 and 1000 characters'') @
     check (isFloat_min V 0 (to_str (b_price body))) (Body ''price'')
       ''Price must be a positive number'' @
     check (isInt_min V 15 (to_str (b_duration body))) (Body ''duration'')
       ''Duration must be at least 15 minutes'' @
     check (isInt_min_max V 1 100 (to_str (b_capacity body))) (Body ''capacity'')
       ''Capacity must be between 1 and 100'' @
     (let v = trim (to_str (b_location body)) in
        check (v \<noteq> []) (Body ''location'') ''Location is required'' @
        check (isLength 3 200 v) (Body ''location'')
          ''Location must be between 3 and 200 characters'') @
     check (b_schedule body \<noteq> None) (Body ''schedule'') ''Schedule must be an array'' @
     each_slot (\<lambda>s. isISO8601 V (to_str (sb_date s))) ''date'' ''Valid date is required'' body @
     each_slot (\<lambda>s. matches_time (to_str (sb_startTime s))) ''startTime''
       ''Valid start time is required (HH:MM format)'' body @
     each_slot (\<lambda>s. matches_time (to_str (sb_endTime s))) ''endTime''
       ''Valid end time is required (HH:MM format)'' body @
     each_slot (\<lambda>s. isInt_min V 0 (to_str (sb_availableSpots s))) ''availableSpots''
       ''Available spots must be a non-negative number'' body"

text \<open>
  The validation chains of \<^verbatim>\<open>PUT /activities/:id\<close> (lines 92 to 117): every chain
  starts with \<^verbatim>\<open>optional()\<close>, which skips it when the field is \<^verbatim>\<open>undefined\<close>.
\<close>

definition update_validators :: "validator_js \<Rightarrow> activity_body \<Rightarrow> verror list" where
  "update_validators V body =
     (case b_title body of None \<Rightarrow> [] | Some raw \<Rightarrow>
        (let v = trim raw in
           check (v \<noteq> []) (Body ''title'') ''Title cannot be empty'' @
           check (isLength 3 100 v) (Body ''title'')
             ''Title must be between 3 and 100 characters'')) @
     (case b_description body of None \<Rightarrow> [] | Some raw \<Rightarrow>
        (let v = trim raw in
           check (v \<noteq> []) (Body ''description'') ''Description cannot be empty'' @
           check (isLength 10 1000 v) (Body ''description'')
             ''Description must be between 10 and 1000 characters'')) @
     (case b_price body of None \<Rightarrow> [] | Some raw \<Rightarrow>
        check (isFloat_min V 0 raw) (Body ''price'') ''Price must be a positive number'') @
     (case b_duration body of None \<Rightarrow> [] | Some raw \<Rightarrow>
        check (isInt_min V 15 raw) (Body ''duration'') ''Duration must be at least 15 minutes'') @
     (case b_capacity body of None \<Rightarrow> [] | Some raw \<Rightarrow>
        check (isInt_min_max V 1 100 raw) (Body ''capacity'')
          ''Capacity must be between 1 and 100'') @
     (case b_location body of None \<Rightarrow> [] | Some raw \<Rightarrow>
        (let v = trim raw in
           check (v \<noteq> []) (Body ''location'') ''Location cannot be empty'' @
           check (isLength 3 200 v) (Body ''location'')
             ''Location must be between 3 and 200 characters''))"

text \<open>
  The handlers proper. What Mongoose does with the body is not part of the sources
  (\<^verbatim>\<open>models/activity.model.js\<close>): \<open>new_activity\<close> is \<^verbatim>\<open>new Activity(req.body)\<close> followed by
  \<^verbatim>\<open>save()\<close>, and \<open>cast_update\<close> is the casting and the schema validators that
  \<^verbatim>\<open>findByIdAndUpdate\<close> runs on the update (\<^verbatim>\<open>runValidators: true\<close>) before it queries;
  both give \<open>None\<close> when Mongoose throws, which the \<^verbatim>\<open>catch\<close> answers with 500.
\<close>

definition create_activity ::
  "validator_js \<Rightarrow> (activity_body \<Rightarrow> activity option) \<Rightarrow> activity_body \<Rightarrow> store
     \<Rightarrow> (failure + activity) \<times> store" where
  "create_activity V new_activity body st =
     (let errors = create_validators V body in
      if errors \<noteq> [] then (Inl (ValidationError errors), st)
      else
        (case new_activity body of
           None \<Rightarrow> (Inl ServerError, st)
         | Some a \<Rightarrow> (Inr a, st\<lparr>activities := activities st @ [a]\<rparr>)))"

definition update_activity ::
  "validator_js \<Rightarrow> (activity_body \<Rightarrow> (activity \<Rightarrow> activity) option) \<Rightarrow> object_id
     \<Rightarrow> activity_body \<Rightarrow> store \<Rightarrow> (failure + activity) \<times> store" where
  "update_activity V cast_update aid body st =
     (let errors = update_validators V body in
      if errors \<noteq> [] then (Inl (ValidationError errors), st)
      else
        (case cast_update body of
           None \<Rightarrow> (Inl ServerError, st)
         | Some upd \<Rightarrow>
           (case find_index (\<lambda>a. activity_id a = aid) (activities st) of
              None \<Rightarrow> (Inl NotFound, st)
            | Some k \<Rightarrow>
              (let a = upd (activities st ! k)
               in (Inr a, st\<lparr>activities := (activities st)[k := a]\<rparr>)))))"

section \<open>Registration\<close>

text \<open>
  \<^verbatim>\<open>POST /auth/register\<close> (\<^verbatim>\<open>auth.routes.js\<close>, lines 10 to 79). The sanitizers of the
  chains (\<^verbatim>\<open>trim\<close>, \<^verbatim>\<open>normalizeEmail\<close>) replace the fields of \<^verbatim>\<open>req.body\<close> before the
  handler reads them. \<open>nid\<close> is the \<^verbatim>\<open>_id\<close> of the new document. The password is stored
  as the \<^verbatim>\<open>User\<close> constructor receives it; the hashing is the model's, which is not part
  of the sources. The token of the response is left out.
\<close>

record register_body =
  r_name :: "string option"
  r_email :: "string option"
  r_password :: "string option"
  r_phone :: "string option"

definition register_validators :: "email_js \<Rightarrow> register_body \<Rightarrow> verror list" where
  "register_validators E body =
     (let v = trim (to_str (r_name body)) in
        check (v \<noteq> []) (Body ''name'') ''Name is required'' @
        check (isLength 2 50 v) (Body ''name'') ''Name must be between 2 and 50 characters'') @
     (let v = trim (to_str (r_email body)) in
        check (v \<noteq> []) (Body ''email'') ''Email is required'' @
        check (isEmail E v) (Body ''email'') ''Please enter a valid email'') @
     (let v = trim (to_str (r_password body)) in
        check (v \<noteq> []) (Body ''password'') ''Password is required'' @
        check (6 \<le> length v) (Body ''password'') ''Password must be at least 6 characters long'' @
        check (matches_password v) (Body ''password'')
          ''Password must contain at least one letter and one number'') @
     (let v = trim (to_str (r_phone body)) in
        check (v \<noteq> []) (Body ''phone'') ''Phone number is required'' @
        check (matches_phone v) (Body ''phone'') ''Phone number must be 10 digits'')"

definition register ::
  "email_js \<Rightarrow> object_id \<Rightarrow> register_body \<Rightarrow> store \<Rightarrow> (failure + user) \<times> store" where
  "register E nid body st =
     (let errors = register_validators E body in
      if errors \<noteq> [] then (Inl (ValidationError errors), st)
      else
        (let name' = trim (to_str (r_name body));
             email' = normalizeEmail E (trim (to_str (r_email body)));
             password' = trim (to_str (r_password body));
             phone' = trim (to_str (r_phone body))
         in case find (\<lambda>u. email u = email') (users st) of
              Some existingUser \<Rightarrow> (Inl UserExists, st)
            | None \<Rightarrow>
              (let u = \<lparr>user_id = nid, name = name', email = email', password = password',
                        phone = phone',
                        role = (if email' = ''admin@example.com'' then ''admin'' else ''user'')\<rparr>
               in (Inr u, st\<lparr>users := users st @ [u]\<rparr>))))"

section \<open>Sequences of reservations and cancellations\<close>

datatype request =
  Reserve booking_init object_id "object_id option"
  | Cancel object_id object_id

fun step :: "request \<Rightarrow> store \<Rightarrow> store" where
  "step (Reserve M uid activityId) st = snd (create_booking M uid activityId st)"
| "step (Cancel uid bid) st = snd (cancel_booking uid bid st)"

fun run :: "request list \<Rightarrow> store \<Rightarrow> store" where
  "run [] st = st"
| "run (r # rs) st = run rs (step r st)"




section \<open>Sample data\<close>

text \<open>A store with one active activity that has a single slot with one spot left.\<close>

definition ex_slot :: schedule_slot where
  "ex_slot = \<lparr>date = 1750000000000, startTime = ''09:00'', endTime = ''10:00'', availableSpots = 1\<rparr>"

definition ex_activity :: activity where
  "ex_activity = \<lparr>activity_id = 1, title = ''Yoga'', description = ''Morning yoga class'',
     price = 20, duration = 60, capacity = 10, location = ''Studio'', isActive = True,
     schedule = [ex_slot]\<rparr>"

definition ex_store :: store where
  "ex_store = \<lparr>users = [], activities = [ex_activity], bookings = []\<rparr>"

definition ex_init :: booking_init where
  "ex_init = \<lparr>init_id = 100, init_status = ''pending'', init_paymentStatus = ''pending''\<rparr>"

text \<open>
  An activity whose first slot is full and whose second slot lies later than its third,
  an activity that is sold out, an inactive one, and a booking of the first activity.
\<close>

definition ex_slots3 :: "schedule_slot list" where
  "ex_slots3 =
     [\<lparr>date = 1750000000000, startTime = ''09:00'', endTime = ''10:00'', availableSpots = 0\<rparr>,
      \<lparr>date = 1790000000000, startTime = ''11:00'', endTime = ''12:00'', availableSpots = 2\<rparr>,
      \<lparr>date = 1760000000000, startTime = ''14:00'', endTime = ''15:00'', availableSpots = 5\<rparr>]"

definition ex_activity3 :: activity where
  "ex_activity3 = \<lparr>activity_id = 2, title = ''Climbing'', description = ''Indoor climbing session'',
     price = 35, duration = 90, capacity = 8, location = ''Gym hall'', isActive = True,
     schedule = ex_slots3\<rparr>"

definition ex_store3 :: store where
  "ex_store3 = \<lparr>users = [], activities = [ex_activity, ex_activity3], bookings = []\<rparr>"

definition ex_soldout :: activity where
  "ex_soldout = \<lparr>activity_id = 3, title = ''Pottery'', description = ''Pottery for beginners'',
     price = 15, duration = 45, capacity = 5, location = ''Workshop'', isActive = True,
     schedule = [\<lparr>date = 1770000000000, startTime = ''16:00'', endTime = ''16:45'',
                  availableSpots = 0\<rparr>]\<rparr>"

definition ex_inactive :: activity where
  "ex_inactive = \<lparr>activity_id = 4, title = ''Sailing'', description = ''Sailing on the lake'',
     price = 50, duration = 120, capacity = 4, location = ''Harbour'', isActive = False,
     schedule = [\<lparr>date = 1780000000000, startTime = ''8:30'', endTime = ''10:30'',
                  availableSpots = 4\<rparr>]\<rparr>"

definition ex_booking :: booking where
  "ex_booking = \<lparr>booking_id = 100, booking_user = 7, booking_activity = 1,
     booking_schedule = \<lparr>date = 1750000000000, startTime = ''09:00'', endTime = ''10:00''\<rparr>,
     numberOfParticipants = 1, totalPrice = 20, status = ''pending'', paymentStatus = ''pending''\<rparr>"

definition ex_store5 :: store where
  "ex_store5 = \<lparr>users = [], activities = [ex_activity, ex_soldout, ex_inactive],
     bookings = [ex_booking]\<rparr>"

definition ex_store_cancelled :: store where
  "ex_store_cancelled = \<lparr>users = [], activities = [ex_activity],
     bookings = [ex_booking\<lparr>status := ''cancelled'', paymentStatus := ''refunded''\<rparr>]\<rparr>"

text \<open>A booking whose slot was edited on the activity after the booking was made.\<close>

definition ex_stale :: booking where
  "ex_stale = ex_booking\<lparr>booking_schedule :=
     \<lparr>date = 1750000000000, startTime = ''09:30'', endTime = ''10:00''\<rparr>\<rparr>"

definition ex_store_stale :: store where
  "ex_store_stale = \<lparr>users = [], activities = [ex_activity, ex_soldout, ex_inactive],
     bookings = [ex_stale]\<rparr>"

text \<open>
  A stand-in for the two e-mail functions of validator.js, to run the sample registrations:
  an address passes when it contains \<^verbatim>\<open>@\<close>, and normalizing turns its letters to lower
  case, which is what validator.js does with an address at \<^verbatim>\<open>example.com\<close>.
\<close>

definition to_lower :: "char \<Rightarrow> char" where
  "to_lower c =
     (case map_of (zip ''ABCDEFGHIJKLMNOPQRSTUVWXYZ'' ''abcdefghijklmnopqrstuvwxyz'') c of
        None \<Rightarrow> c
      | Some l \<Rightarrow> l)"

definition ex_email_js :: email_js where
  "ex_email_js = \<lparr>isEmail = (\<lambda>s. CHR ''@'' \<in> set s), normalizeEmail = map to_lower\<rparr>"

definition ex_register_admin :: register_body where
  "ex_register_admin = \<lparr>r_name = Some ''Ada'', r_email = Some ''admin@example.com'',
     r_password = Some ''secret1'', r_phone = Some ''0123456789''\<rparr>"

text \<open>Two registrations that submit other strings than the literal address of the admin.\<close>

definition ex_register_spaced :: register_body where
  "ex_register_spaced = \<lparr>r_name = Some ''Ada'', r_email = Some '' admin@example.com'',
     r_password = Some ''secret1'', r_phone = Some ''0123456789''\<rparr>"

definition ex_register_upper :: register_body where
  "ex_register_upper = \<lparr>r_name = Some ''Ada'', r_email = Some '' Admin@Example.COM '',
     r_password = Some ''secret1'', r_phone = Some ''0123456789''\<rparr>"

definition ex_register_alice :: register_body where
  "ex_register_alice = \<lparr>r_name = Some ''Alice'', r_email = Some ''alice@example.com'',
     r_password = Some ''passw0rd'', r_phone = Some ''0123456789''\<rparr>"

text \<open>
  The body of an update that sets only the schedule, to one slot whose start time is not a
  time of day.
\<close>

definition ex_bad_update :: activity_body where
  "ex_bad_update = \<lparr>b_title = None, b_description = None, b_price = None, b_duration = None,
     b_capacity = None, b_location = None,
     b_schedule = Some [\<lparr>sb_date = Some ''2025-07-01'', sb_startTime = Some ''25:61'',
                         sb_endTime = Some ''10:00'', sb_availableSpots = Some ''5''\<rparr>]\<rparr>"

section \<open>Facts about the primitives\<close>

lemma find_index_Some:
  "find_index P xs = Some i \<Longrightarrow> i < length xs \<and> P (xs ! i) \<and> (\<forall>j<i. \<not> P (xs ! j))"
proof (induction xs arbitrary: i)
  case Nil
  then show ?case by simp
next
  case (Cons x xs)
  show ?case
  proof (cases "P x")
    case True
    with Cons.prems show ?thesis by simp
  next
    case False
    with Cons.prems obtain i' where i': "find_index P xs = Some i'" "i = Suc i'"
      by auto
    from Cons.IH [OF i'(1)] False i'(2) show ?thesis
      by (auto simp: nth_Cons split: nat.splits)
  qed
qed

lemma find_index_None: "find_index P xs = None \<longleftrightarrow> (\<forall>x\<in>set xs. \<not> P x)"
  by (induction xs) auto

lemma find_index_find:
  "find P xs = (case find_index P xs of None \<Rightarrow> None | Some i \<Rightarrow> Some (xs ! i))"
  by (induction xs) (auto split: option.splits)

lemma find_index_first:
  "i < length xs \<Longrightarrow> P (xs ! i) \<Longrightarrow> (\<forall>j<i. \<not> P (xs ! j)) \<Longrightarrow> find_index P xs = Some i"
proof (induction xs arbitrary: i)
  case Nil
  then show ?case by simp
next
  case (Cons x xs)
  show ?case
  proof (cases i)
    case 0
    with Cons.prems show ?thesis by simp
  next
    case (Suc i')
    with Cons.prems have "\<not> P x" by auto
    moreover from Suc Cons.prems have "find_index P xs = Some i'"
      by (intro Cons.IH) auto
    ultimately show ?thesis using Suc by simp
  qed
qed

lemma save_at:
  "distinct (map idf xs) \<Longrightarrow> k < length xs \<Longrightarrow> idf (xs ! k) = idf d \<Longrightarrow> save idf d xs = xs[k := d]"
proof (induction xs arbitrary: k)
  case Nil
  then show ?case by simp
next
  case (Cons x xs)
  show ?case
  proof (cases k)
    case 0
    with Cons.prems show ?thesis by simp
  next
    case (Suc k')
    with Cons.prems have "idf x \<noteq> idf d"
      by (metis distinct.simps(2) image_eqI length_Cons list.simps(9) not_less_eq nth_Cons_Suc
          nth_mem set_map)
    with Suc Cons show ?thesis by simp
  qed
qed

section \<open>Reserve\<close>

lemma find_position:
  "find P xs = Some a \<Longrightarrow> \<exists>k<length xs. xs ! k = a \<and> P a \<and> (\<forall>j<k. \<not> P (xs ! j))"
  by (auto simp: find_Some_iff)

lemma create_booking_Inr:
  assumes "create_booking M uid activityId st = (Inr b, st')"
  obtains aid act i where
    "activityId = Some aid"
    "find (\<lambda>a. activity_id a = aid \<and> isActive a) (activities st) = Some act"
    "find_index (\<lambda>slot. availableSpots slot > 0) (schedule act) = Some i"
    "b = \<lparr>booking_id = init_id M, booking_user = uid, booking_activity = aid,
          booking_schedule = \<lparr>date = date (schedule act ! i), startTime = startTime (schedule act ! i),
             endTime = endTime (schedule act ! i)\<rparr>,
          numberOfParticipants = 1, totalPrice = price act,
          status = init_status M, paymentStatus = init_paymentStatus M\<rparr>"
    "st' = st\<lparr>bookings := bookings st @ [b],
             activities := save activity_id
               (act\<lparr>schedule := (schedule act)
                  [i := (schedule act ! i)\<lparr>availableSpots := availableSpots (schedule act ! i) - 1\<rparr>]\<rparr>)
               (activities st)\<rparr>"
  using assms
  by (auto simp: create_booking_def Let_def split: option.splits)

lemma create_booking_success:
  assumes "find (\<lambda>a. activity_id a = aid \<and> isActive a) (activities st) = Some act"
    and "find_index (\<lambda>slot. availableSpots slot > 0) (schedule act) = Some i"
  shows "create_booking M uid (Some aid) st =
    (Inr \<lparr>booking_id = init_id M, booking_user = uid, booking_activity = aid,
          booking_schedule = \<lparr>date = date (schedule act ! i), startTime = startTime (schedule act ! i),
             endTime = endTime (schedule act ! i)\<rparr>,
          numberOfParticipants = 1, totalPrice = price act,
          status = init_status M, paymentStatus = init_paymentStatus M\<rparr>,
     st\<lparr>bookings := bookings st @ [\<lparr>booking_id = init_id M, booking_user = uid, booking_activity = aid,
          booking_schedule = \<lparr>date = date (schedule act ! i), startTime = startTime (schedule act ! i),
             endTime = endTime (schedule act ! i)\<rparr>,
          numberOfParticipants = 1, totalPrice = price act,
          status = init_status M, paymentStatus = init_paymentStatus M\<rparr>],
        activities := save activity_id
               (act\<lparr>schedule := (schedule act)
                  [i := (schedule act ! i)\<lparr>availableSpots := availableSpots (schedule act ! i) - 1\<rparr>]\<rparr>)
               (activities st)\<rparr>)"
  using assms by (simp add: create_booking_def Let_def)

lemma find_by_id_distinct:
  "distinct (map idf xs) \<Longrightarrow> a \<in> set xs \<Longrightarrow> P a \<Longrightarrow> find (\<lambda>x. idf x = idf a \<and> P x) xs = Some a"
  by (induction xs) (auto simp: rev_image_eqI)


text \<open>
  Claim C1. A successful booking-create answers 201. The slot it chooses is the first slot
  of the activity with \<^verbatim>\<open>availableSpots > 0\<close>; it is the slot whose date and times the
  new booking records, and it is the slot that is decremented: its \<^verbatim>\<open>availableSpots\<close>
  goes down by exactly 1, and every other slot, every other field of the activity and every
  other activity are as before (the collection keeps its documents' \<^verbatim>\<open>_id\<close>s distinct).
  In particular, for an active activity with a single slot that has one spot left, a first
  request succeeds with 201 and leaves the slot at 0, and any second request then fails with
  NoAvailability (400) and changes nothing.
\<close>

theorem reserve_decrements_chosen_slot:
  assumes "distinct (map activity_id (activities st))"
  shows "(create_booking M uid activityId st = (Inr b, st') \<longrightarrow>
      (\<exists>k i. k < length (activities st) \<and> i < length (schedule (activities st ! k)) \<and>
         activityId = Some (activity_id (activities st ! k)) \<and>
         isActive (activities st ! k) \<and>
         0 < availableSpots (schedule (activities st ! k) ! i) \<and>
         (\<forall>j<i. availableSpots (schedule (activities st ! k) ! j) \<le> 0) \<and>
         booking_schedule b = \<lparr>date = date (schedule (activities st ! k) ! i),
                                startTime = startTime (schedule (activities st ! k) ! i),
                                endTime = endTime (schedule (activities st ! k) ! i)\<rparr> \<and>
         booking_activity b = activity_id (activities st ! k) \<and>
         numberOfParticipants b = 1 \<and>
         bookings st' = bookings st @ [b] \<and>
         activities st' = (activities st)
           [k := (activities st ! k)\<lparr>schedule := (schedule (activities st ! k))
              [i := (schedule (activities st ! k) ! i)
                 \<lparr>availableSpots := availableSpots (schedule (activities st ! k) ! i) - 1\<rparr>]\<rparr>] \<and>
         users st' = users st \<and>
         create_booking_status (fst (create_booking M uid activityId st)) = 201))
    \<and> (\<forall>a s. a \<in> set (activities st) \<and> isActive a \<and> schedule a = [s] \<and> availableSpots s = 1 \<longrightarrow>
         (\<exists>b1 st1. create_booking M uid (Some (activity_id a)) st = (Inr b1, st1) \<and>
            create_booking_status (fst (create_booking M uid (Some (activity_id a)) st)) = 201 \<and>
            find (\<lambda>x. activity_id x = activity_id a) (activities st1)
              = Some (a\<lparr>schedule := [s\<lparr>availableSpots := 0\<rparr>]\<rparr>) \<and>
            (\<forall>M2 uid2. create_booking M2 uid2 (Some (activity_id a)) st1 = (Inl NoAvailability, st1)) \<and>
            (\<forall>M2 uid2. create_booking_status
               (fst (create_booking M2 uid2 (Some (activity_id a)) st1)) = 400)))"
proof (intro conjI impI allI)
  assume ok: "create_booking M uid activityId st = (Inr b, st')"
  then obtain aid act i where
    aid: "activityId = Some aid"
    and act: "find (\<lambda>a. activity_id a = aid \<and> isActive a) (activities st) = Some act"
    and i: "find_index (\<lambda>slot. availableSpots slot > 0) (schedule act) = Some i"
    and b: "b = \<lparr>booking_id = init_id M, booking_user = uid, booking_activity = aid,
          booking_schedule = \<lparr>date = date (schedule act ! i), startTime = startTime (schedule act ! i),
             endTime = endTime (schedule act ! i)\<rparr>,
          numberOfParticipants = 1, totalPrice = price act,
          status = init_status M, paymentStatus = init_paymentStatus M\<rparr>"
    and st': "st' = st\<lparr>bookings := bookings st @ [b],
             activities := save activity_id
               (act\<lparr>schedule := (schedule act)
                  [i := (schedule act ! i)\<lparr>availableSpots := availableSpots (schedule act ! i) - 1\<rparr>]\<rparr>)
               (activities st)\<rparr>"
    by (rule create_booking_Inr)
  from find_position [OF act] obtain k where
    k: "k < length (activities st)" "activities st ! k = act" "activity_id act = aid" "isActive act"
    by auto
  from find_index_Some [OF i] have i': "i < length (schedule act)"
    "0 < availableSpots (schedule act ! i)" "\<forall>j<i. availableSpots (schedule act ! j) \<le> 0"
    by (auto simp: not_less)
  have snap: "booking_schedule b = \<lparr>date = date (schedule act ! i),
      startTime = startTime (schedule act ! i), endTime = endTime (schedule act ! i)\<rparr>"
    and bact: "booking_activity b = aid" and cnt: "numberOfParticipants b = 1"
    by (simp_all add: b)
  have bks: "bookings st' = bookings st @ [b]" and usr: "users st' = users st"
    by (simp_all add: st')
  have acts: "activities st' = (activities st)[k := act\<lparr>schedule := (schedule act)
                  [i := (schedule act ! i)\<lparr>availableSpots := availableSpots (schedule act ! i) - 1\<rparr>]\<rparr>]"
    unfolding st' using save_at [OF assms k(1), of "act\<lparr>schedule := (schedule act)
                  [i := (schedule act ! i)\<lparr>availableSpots := availableSpots (schedule act ! i) - 1\<rparr>]\<rparr>"] k(2)
    by simp
  have code: "create_booking_status (fst (create_booking M uid activityId st)) = 201"
    using ok by (simp add: create_booking_status_def response_status_def)
  show "\<exists>k i. k < length (activities st) \<and> i < length (schedule (activities st ! k)) \<and>
         activityId = Some (activity_id (activities st ! k)) \<and>
         isActive (activities st ! k) \<and>
         0 < availableSpots (schedule (activities st ! k) ! i) \<and>
         (\<forall>j<i. availableSpots (schedule (activities st ! k) ! j) \<le> 0) \<and>
         booking_schedule b = \<lparr>date = date (schedule (activities st ! k) ! i),
                                startTime = startTime (schedule (activities st ! k) ! i),
                                endTime = endTime (schedule (activities st ! k) ! i)\<rparr> \<and>
         booking_activity b = activity_id (activities st ! k) \<and>
         numberOfParticipants b = 1 \<and>
         bookings st' = bookings st @ [b] \<and>
         activities st' = (activities st)
           [k := (activities st ! k)\<lparr>schedule := (schedule (activities st ! k))
              [i := (schedule (activities st ! k) ! i)
                 \<lparr>availableSpots := availableSpots (schedule (activities st ! k) ! i) - 1\<rparr>]\<rparr>] \<and>
         users st' = users st \<and>
         create_booking_status (fst (create_booking M uid activityId st)) = 201"
    apply (rule exI [of _ k], rule exI [of _ i])
    using k i' aid snap bact cnt bks usr acts code by simp
next
  fix a s
  assume a: "a \<in> set (activities st) \<and> isActive a \<and> schedule a = [s] \<and> availableSpots s = 1"
  let ?a' = "a\<lparr>schedule := [s\<lparr>availableSpots := 0\<rparr>]\<rparr>"
  let ?b = "\<lparr>booking_id = init_id M, booking_user = uid, booking_activity = activity_id a,
          booking_schedule = \<lparr>date = date s, startTime = startTime s, endTime = endTime s\<rparr>,
          numberOfParticipants = 1, totalPrice = price a,
          status = init_status M, paymentStatus = init_paymentStatus M\<rparr>"
  let ?st1 = "st\<lparr>bookings := bookings st @ [?b], activities := save activity_id ?a' (activities st)\<rparr>"
  from a have fa: "find (\<lambda>x. activity_id x = activity_id a \<and> isActive x) (activities st) = Some a"
    using find_by_id_distinct [OF assms, of a isActive] by simp
  from a have fi: "find_index (\<lambda>slot. availableSpots slot > 0) (schedule a) = Some 0"
    by simp
  have first: "create_booking M uid (Some (activity_id a)) st = (Inr ?b, ?st1)"
    using create_booking_success [OF fa fi, of M uid] a by simp
  from a obtain k where k: "k < length (activities st)" "activities st ! k = a"
    by (auto simp: in_set_conv_nth)
  have acts1: "activities ?st1 = (activities st)[k := ?a']"
    using save_at [OF assms k(1), of ?a'] k(2) by simp
  have d1: "distinct (map activity_id (activities ?st1))"
    unfolding acts1 using assms k by (simp add: map_update) (metis list_update_id nth_map length_map)
  have in1: "?a' \<in> set (activities ?st1)"
    unfolding acts1 using k(1) by (simp add: set_update_memI)
  have f1: "find (\<lambda>x. activity_id x = activity_id ?a' \<and> isActive x) (activities ?st1) = Some ?a'"
    using find_by_id_distinct [OF d1 in1, of isActive] a by simp
  have f1': "find (\<lambda>x. activity_id x = activity_id ?a' \<and> True) (activities ?st1) = Some ?a'"
    using find_by_id_distinct [OF d1 in1, of "\<lambda>_. True"] by simp
  have second: "create_booking M2 uid2 (Some (activity_id a)) ?st1 = (Inl NoAvailability, ?st1)" for M2 uid2
    using f1 by (simp add: create_booking_def)
  show "\<exists>b1 st1. create_booking M uid (Some (activity_id a)) st = (Inr b1, st1) \<and>
            create_booking_status (fst (create_booking M uid (Some (activity_id a)) st)) = 201 \<and>
            find (\<lambda>x. activity_id x = activity_id a) (activities st1)
              = Some (a\<lparr>schedule := [s\<lparr>availableSpots := 0\<rparr>]\<rparr>) \<and>
            (\<forall>M2 uid2. create_booking M2 uid2 (Some (activity_id a)) st1 = (Inl NoAvailability, st1)) \<and>
            (\<forall>M2 uid2. create_booking_status
               (fst (create_booking M2 uid2 (Some (activity_id a)) st1)) = 400)"
    apply (rule exI [of _ ?b], rule exI [of _ ?st1])
    using first second f1' by (simp add: create_booking_status_def response_status_def)
qed

theorem reserve_decrements_chosen_slot_witness:
  "distinct (map activity_id (activities ex_store3)) \<and>
   (\<exists>b st'. create_booking ex_init 7 (Some 2) ex_store3 = (Inr b, st') \<and>
      booking_schedule b = \<lparr>date = 1790000000000, startTime = ''11:00'', endTime = ''12:00''\<rparr> \<and>
      map (\<lambda>a. map availableSpots (schedule a)) (activities ex_store3) = [[1], [0, 2, 5]] \<and>
      map (\<lambda>a. map availableSpots (schedule a)) (activities st') = [[1], [0, 1, 5]] \<and>
      activities st' = [ex_activity,
        ex_activity3\<lparr>schedule := ex_slots3[1 := (ex_slots3 ! 1)\<lparr>availableSpots := 1\<rparr>]\<rparr>]) \<and>
   distinct (map activity_id (activities ex_store)) \<and>
   ex_activity \<in> set (activities ex_store) \<and> isActive ex_activity \<and>
   schedule ex_activity = [ex_slot] \<and> availableSpots ex_slot = 1 \<and>
   (\<exists>b1 st1. create_booking ex_init 7 (Some 1) ex_store = (Inr b1, st1) \<and>
      create_booking_status (fst (create_booking ex_init 7 (Some 1) ex_store)) = 201 \<and>
      find (\<lambda>x. activity_id x = 1) (activities st1)
        = Some (ex_activity\<lparr>schedule := [ex_slot\<lparr>availableSpots := 0\<rparr>]\<rparr>) \<and>
      create_booking ex_init 8 (Some 1) st1 = (Inl NoAvailability, st1) \<and>
      create_booking_status (fst (create_booking ex_init 8 (Some 1) st1)) = 400)"
proof -
  have d3: "distinct (map activity_id (activities ex_store3))"
    by (simp add: ex_store3_def ex_activity_def ex_activity3_def)
  have "\<exists>b st'. create_booking ex_init 7 (Some 2) ex_store3 = (Inr b, st')"
    by (simp add: create_booking_def ex_store3_def ex_activity_def ex_activity3_def ex_slots3_def
        ex_slot_def Let_def)
  then obtain b st' where run: "create_booking ex_init 7 (Some 2) ex_store3 = (Inr b, st')"
    by blast
  from reserve_decrements_chosen_slot [OF d3, of ex_init 7 "Some 2" b st', THEN conjunct1] run
  obtain k i where k: "k < length (activities ex_store3)"
      "Some 2 = Some (activity_id (activities ex_store3 ! k))"
    and i: "i < length (schedule (activities ex_store3 ! k))"
      "0 < availableSpots (schedule (activities ex_store3 ! k) ! i)"
      "\<forall>j<i. availableSpots (schedule (activities ex_store3 ! k) ! j) \<le> 0"
    and snap: "booking_schedule b = \<lparr>date = date (schedule (activities ex_store3 ! k) ! i),
                                startTime = startTime (schedule (activities ex_store3 ! k) ! i),
                                endTime = endTime (schedule (activities ex_store3 ! k) ! i)\<rparr>"
    and acts: "activities st' = (activities ex_store3)
           [k := (activities ex_store3 ! k)\<lparr>schedule := (schedule (activities ex_store3 ! k))
              [i := (schedule (activities ex_store3 ! k) ! i)
                 \<lparr>availableSpots := availableSpots (schedule (activities ex_store3 ! k) ! i) - 1\<rparr>]\<rparr>]"
    by blast
  have k1: "k = 1"
  proof (rule ccontr)
    assume "k \<noteq> 1"
    with k(1) have "k = 0" by (simp add: ex_store3_def)
    with k(2) show False by (simp add: ex_store3_def ex_activity_def)
  qed
  have the_act: "activities ex_store3 ! 1 = ex_activity3"
    by (simp add: ex_store3_def)
  have sched: "schedule ex_activity3 = ex_slots3"
    by (simp add: ex_activity3_def)
  note i3 = i [unfolded k1 the_act sched]
  have i1: "i = 1"
  proof -
    have "i \<noteq> 0"
    proof
      assume "i = 0"
      with i3(2) show False by (simp add: ex_slots3_def)
    qed
    moreover have "\<not> 1 < i"
    proof
      assume "1 < i"
      with i3(3) have "availableSpots (ex_slots3 ! 1) \<le> 0" by blast
      then show False by (simp add: ex_slots3_def)
    qed
    ultimately show ?thesis by simp
  qed
  from snap have s1: "booking_schedule b
      = \<lparr>date = 1790000000000, startTime = ''11:00'', endTime = ''12:00''\<rparr>"
    unfolding k1 the_act sched i1 by (simp add: ex_slots3_def)
  from acts have a1: "activities st' = [ex_activity,
        ex_activity3\<lparr>schedule := ex_slots3[1 := (ex_slots3 ! 1)\<lparr>availableSpots := 1\<rparr>]\<rparr>]"
    unfolding k1 the_act sched i1 by (simp add: ex_store3_def ex_slots3_def)
  have before: "map (\<lambda>a. map availableSpots (schedule a)) (activities ex_store3) = [[1], [0, 2, 5]]"
    by (simp add: ex_store3_def ex_activity_def ex_activity3_def ex_slots3_def ex_slot_def)
  have after: "map (\<lambda>a. map availableSpots (schedule a)) (activities st') = [[1], [0, 1, 5]]"
    unfolding a1 by (simp add: ex_activity_def ex_activity3_def ex_slots3_def ex_slot_def)
  have multi: "\<exists>b st'. create_booking ex_init 7 (Some 2) ex_store3 = (Inr b, st') \<and>
      booking_schedule b = \<lparr>date = 1790000000000, startTime = ''11:00'', endTime = ''12:00''\<rparr> \<and>
      map (\<lambda>a. map availableSpots (schedule a)) (activities ex_store3) = [[1], [0, 2, 5]] \<and>
      map (\<lambda>a. map availableSpots (schedule a)) (activities st') = [[1], [0, 1, 5]] \<and>
      activities st' = [ex_activity,
        ex_activity3\<lparr>schedule := ex_slots3[1 := (ex_slots3 ! 1)\<lparr>availableSpots := 1\<rparr>]\<rparr>]"
    apply (rule exI [of _ b], rule exI [of _ st'])
    using run s1 before after a1 by simp
  have d: "distinct (map activity_id (activities ex_store))"
    by (simp add: ex_store_def)
  have h: "ex_activity \<in> set (activities ex_store) \<and> isActive ex_activity \<and>
      schedule ex_activity = [ex_slot] \<and> availableSpots ex_slot = 1"
    by (simp add: ex_store_def ex_activity_def ex_slot_def)
  have aid: "activity_id ex_activity = 1"
    by (simp add: ex_activity_def)
  from reserve_decrements_chosen_slot [OF d, of ex_init 7, THEN conjunct2, rule_format, OF h]
  obtain b1 st1 where
    "create_booking ex_init 7 (Some 1) ex_store = (Inr b1, st1)"
    "create_booking_status (fst (create_booking ex_init 7 (Some 1) ex_store)) = 201"
    "find (\<lambda>x. activity_id x = 1) (activities st1)
        = Some (ex_activity\<lparr>schedule := [ex_slot\<lparr>availableSpots := 0\<rparr>]\<rparr>)"
    "create_booking ex_init 8 (Some 1) st1 = (Inl NoAvailability, st1)"
    "create_booking_status (fst (create_booking ex_init 8 (Some 1) st1)) = 400"
    unfolding aid by blast
  then have single: "\<exists>b1 st1. create_booking ex_init 7 (Some 1) ex_store = (Inr b1, st1) \<and>
      create_booking_status (fst (create_booking ex_init 7 (Some 1) ex_store)) = 201 \<and>
      find (\<lambda>x. activity_id x = 1) (activities st1)
        = Some (ex_activity\<lparr>schedule := [ex_slot\<lparr>availableSpots := 0\<rparr>]\<rparr>) \<and>
      create_booking ex_init 8 (Some 1) st1 = (Inl NoAvailability, st1) \<and>
      create_booking_status (fst (create_booking ex_init 8 (Some 1) st1)) = 400"
    by blast
  from d3 multi d h single show ?thesis by blast
qed

lemmas ex_defs = ex_store5_def ex_activity_def ex_slot_def ex_soldout_def ex_inactive_def
  ex_booking_def ex_store_cancelled_def ex_init_def

text \<open>
  Claim C2. For every active activity of the store whose schedule has a slot with
  \<^verbatim>\<open>availableSpots > 0\<close>, the booking-create succeeds; the slot it takes is the first
  such slot in the stored order of the array (every slot before it is full, whatever the
  dates are), and the booking it appends to the collection copies exactly that slot's
  date, start time and end time.
\<close>

theorem reserve_selects_first_available_slot:
  assumes "distinct (map activity_id (activities st))"
    and "act \<in> set (activities st)" and "isActive act"
    and "\<exists>slot\<in>set (schedule act). 0 < availableSpots slot"
  shows "\<exists>i b st'. create_booking M uid (Some (activity_id act)) st = (Inr b, st') \<and>
      i < length (schedule act) \<and> 0 < availableSpots (schedule act ! i) \<and>
      (\<forall>j<i. availableSpots (schedule act ! j) \<le> 0) \<and>
      booking_schedule b = \<lparr>date = date (schedule act ! i),
                             startTime = startTime (schedule act ! i),
                             endTime = endTime (schedule act ! i)\<rparr> \<and>
      booking_user b = uid \<and> booking_activity b = activity_id act \<and>
      bookings st' = bookings st @ [b]"
proof -
  have fa: "find (\<lambda>a. activity_id a = activity_id act \<and> isActive a) (activities st) = Some act"
    using find_by_id_distinct [OF assms(1,2), of isActive] assms(3) by simp
  from assms(4) have "find_index (\<lambda>slot. availableSpots slot > 0) (schedule act) \<noteq> None"
    by (simp add: find_index_None)
  then obtain i where fi: "find_index (\<lambda>slot. availableSpots slot > 0) (schedule act) = Some i"
    by blast
  from find_index_Some [OF fi]
  have i: "i < length (schedule act)" "0 < availableSpots (schedule act ! i)"
    "\<forall>j<i. availableSpots (schedule act ! j) \<le> 0"
    by (auto simp: not_less)
  show ?thesis
    using create_booking_success [OF fa fi, of M uid] i
    by (intro exI [of _ i]) simp
qed

theorem reserve_selects_first_available_slot_witness:
  "distinct (map activity_id (activities ex_store3)) \<and>
   ex_activity3 \<in> set (activities ex_store3) \<and> isActive ex_activity3 \<and>
   (\<exists>slot\<in>set (schedule ex_activity3). 0 < availableSpots slot) \<and>
   (\<exists>b st'. create_booking ex_init 7 (Some 2) ex_store3 = (Inr b, st') \<and>
      booking_schedule b = \<lparr>date = 1790000000000, startTime = ''11:00'', endTime = ''12:00''\<rparr> \<and>
      bookings st' = bookings ex_store3 @ [b])"
proof -
  have d: "distinct (map activity_id (activities ex_store3))"
    by (simp add: ex_store3_def ex_activity_def ex_activity3_def)
  have m: "ex_activity3 \<in> set (activities ex_store3)"
    by (simp add: ex_store3_def)
  have a: "isActive ex_activity3"
    by (simp add: ex_activity3_def)
  have s: "\<exists>slot\<in>set (schedule ex_activity3). 0 < availableSpots slot"
    by (simp add: ex_activity3_def ex_slots3_def)
  from reserve_selects_first_available_slot [OF d m a s, of ex_init 7]
  obtain i b st' where r: "create_booking ex_init 7 (Some (activity_id ex_activity3)) ex_store3 = (Inr b, st')"
    and i: "i < length (schedule ex_activity3)" "0 < availableSpots (schedule ex_activity3 ! i)"
      "\<forall>j<i. availableSpots (schedule ex_activity3 ! j) \<le> 0"
    and b: "booking_schedule b = \<lparr>date = date (schedule ex_activity3 ! i),
                             startTime = startTime (schedule ex_activity3 ! i),
                             endTime = endTime (schedule ex_activity3 ! i)\<rparr>"
      "bookings st' = bookings ex_store3 @ [b]"
    by blast
  have "i = 1"
  proof -
    have "i \<noteq> 0"
    proof
      assume "i = 0"
      with i(2) show False by (simp add: ex_activity3_def ex_slots3_def)
    qed
    moreover have "\<not> 1 < i"
    proof
      assume "1 < i"
      with i(3) have "availableSpots (schedule ex_activity3 ! 1) \<le> 0" by blast
      then show False by (simp add: ex_activity3_def ex_slots3_def)
    qed
    ultimately show ?thesis by simp
  qed
  with b have "booking_schedule b = \<lparr>date = 1790000000000, startTime = ''11:00'', endTime = ''12:00''\<rparr>"
    by (simp add: ex_activity3_def ex_slots3_def)
  moreover have "activity_id ex_activity3 = 2" by (simp add: ex_activity3_def)
  ultimately show ?thesis using d m a s r b(2) by auto
qed

text \<open>
  Claim C5. For a request that names an activity: the booking-create fails with NotFound (404)
  exactly when no activity has that id or the one that has it is inactive; it fails with
  NoAvailability (400) exactly when the activity exists, is active and none of its slots has
  \<^verbatim>\<open>availableSpots > 0\<close>; in both cases the store is unchanged, so no booking is
  created and no activity is modified.
\<close>

theorem reserve_failures:
  assumes "distinct (map activity_id (activities st))"
  shows "(fst (create_booking M uid (Some aid) st) = Inl NotFound \<longleftrightarrow>
            (\<forall>a\<in>set (activities st). activity_id a \<noteq> aid) \<or>
            (\<exists>a\<in>set (activities st). activity_id a = aid \<and> \<not> isActive a)) \<and>
         (fst (create_booking M uid (Some aid) st) = Inl NoAvailability \<longleftrightarrow>
            (\<exists>a\<in>set (activities st). activity_id a = aid \<and> isActive a \<and>
               (\<forall>s\<in>set (schedule a). availableSpots s \<le> 0))) \<and>
         (fst (create_booking M uid (Some aid) st) = Inl NotFound \<or>
          fst (create_booking M uid (Some aid) st) = Inl NoAvailability \<longrightarrow>
            snd (create_booking M uid (Some aid) st) = st) \<and>
         http_status NotFound = 404 \<and> http_status NoAvailability = 400"
proof -
  let ?P = "\<lambda>a. activity_id a = aid \<and> isActive a"
  let ?A = "(\<forall>a\<in>set (activities st). activity_id a \<noteq> aid) \<or>
            (\<exists>a\<in>set (activities st). activity_id a = aid \<and> \<not> isActive a)"
  let ?B = "\<exists>a\<in>set (activities st). activity_id a = aid \<and> isActive a \<and>
               (\<forall>s\<in>set (schedule a). availableSpots s \<le> 0)"
  have uniq: "a = a'" if "a \<in> set (activities st)" "a' \<in> set (activities st)"
    "activity_id a = activity_id a'" for a a'
    using that assms by (meson distinct_map inj_onD)
  show ?thesis
  proof (cases "find ?P (activities st)")
    case None
    then have none: "\<forall>a\<in>set (activities st). \<not> ?P a"
      by (simp add: find_None_iff)
    have r: "create_booking M uid (Some aid) st = (Inl NotFound, st)"
      using None by (simp add: create_booking_def)
    from none have "?A" by blast
    moreover from none have "\<not> ?B" by blast
    ultimately show ?thesis unfolding r by simp
  next
    case (Some act)
    then have act: "act \<in> set (activities st)" "activity_id act = aid" "isActive act"
      by (auto simp: find_Some_iff)
    have only: "a = act" if "a \<in> set (activities st)" "activity_id a = aid" for a
      using uniq [OF that(1) act(1)] that(2) act(2) by simp
    have notA: "\<not> ?A"
      using act only by blast
    have B: "?B \<longleftrightarrow> (\<forall>s\<in>set (schedule act). availableSpots s \<le> 0)"
      using act only by blast
    show ?thesis
    proof (cases "find_index (\<lambda>slot. availableSpots slot > 0) (schedule act)")
      case None
      then have full: "\<forall>s\<in>set (schedule act). availableSpots s \<le> 0"
        by (auto simp: find_index_None not_less)
      have r: "create_booking M uid (Some aid) st = (Inl NoAvailability, st)"
        using Some None by (simp add: create_booking_def)
      from notA B full show ?thesis unfolding r by simp
    next
      case (Some i)
      from find_index_Some [OF Some] have "\<exists>s\<in>set (schedule act). 0 < availableSpots s"
        by (meson nth_mem)
      then have nfull: "\<not> (\<forall>s\<in>set (schedule act). availableSpots s \<le> 0)"
        by (auto simp: not_le)
      from create_booking_success [OF \<open>find ?P (activities st) = Some act\<close> Some, of M uid]
      obtain b where "fst (create_booking M uid (Some aid) st) = Inr b"
        by simp
      with notA B nfull show ?thesis by simp
    qed
  qed
qed

theorem reserve_failures_witness:
  "distinct (map activity_id (activities ex_store5)) \<and>
   fst (create_booking ex_init 7 (Some 9) ex_store5) = Inl NotFound \<and>
   fst (create_booking ex_init 7 (Some 4) ex_store5) = Inl NotFound \<and>
   fst (create_booking ex_init 7 (Some 3) ex_store5) = Inl NoAvailability \<and>
   snd (create_booking ex_init 7 (Some 3) ex_store5) = ex_store5 \<and>
   snd (create_booking ex_init 7 (Some 9) ex_store5) = ex_store5"
proof -
  have d: "distinct (map activity_id (activities ex_store5))"
    by (simp add: ex_defs)
  note T = reserve_failures [OF d, of ex_init 7]
  have absent: "fst (create_booking ex_init 7 (Some 9) ex_store5) = Inl NotFound"
    using T [of 9] by (simp add: ex_defs)
  have inactive: "fst (create_booking ex_init 7 (Some 4) ex_store5) = Inl NotFound"
    using T [of 4] by (simp add: ex_defs)
  have soldout: "fst (create_booking ex_init 7 (Some 3) ex_store5) = Inl NoAvailability"
    using T [of 3] by (simp add: ex_defs)
  from T [of 3] soldout have "snd (create_booking ex_init 7 (Some 3) ex_store5) = ex_store5"
    by blast
  moreover from T [of 9] absent have "snd (create_booking ex_init 7 (Some 9) ex_store5) = ex_store5"
    by blast
  ultimately show ?thesis using d absent inactive soldout by blast
qed

section \<open>Cancel\<close>

lemma find_by_id_only:
  "distinct (map idf xs) \<Longrightarrow> a \<in> set xs \<Longrightarrow> find (\<lambda>x. idf x = idf a) xs = Some a"
  using find_by_id_distinct [of idf xs a "\<lambda>_. True"] by simp

lemma distinct_ids_update:
  "distinct (map idf xs) \<Longrightarrow> k < length xs \<Longrightarrow> idf d = idf (xs ! k) \<Longrightarrow>
     distinct (map idf (xs[k := d]))"
  by (simp add: map_update) (metis list_update_id nth_map length_map)

lemma cancel_booking_found:
  assumes "find (\<lambda>b. booking_id b = bid \<and> booking_user b = uid) (bookings st) = Some b0"
    and "status b0 \<noteq> ''cancelled''"
  shows "bookings (snd (cancel_booking uid bid st))
           = save booking_id (b0\<lparr>status := ''cancelled'', paymentStatus := ''refunded''\<rparr>) (bookings st)"
    and "users (snd (cancel_booking uid bid st)) = users st"
    and "fst (cancel_booking uid bid st) \<noteq> Inl NotFound"
  using assms by (simp_all add: cancel_booking_def Let_def split: option.splits)

lemma cancel_booking_activity_found:
  assumes "find (\<lambda>b. booking_id b = bid \<and> booking_user b = uid) (bookings st) = Some b0"
    and "status b0 \<noteq> ''cancelled''"
    and "find (\<lambda>a. activity_id a = booking_activity b0) (activities st) = Some act"
  shows "fst (cancel_booking uid bid st) = Inr ()"
    and "activities (snd (cancel_booking uid bid st)) =
      (case find_index (same_slot (booking_schedule b0)) (schedule act) of
         None \<Rightarrow> activities st
       | Some i \<Rightarrow> save activity_id
           (act\<lparr>schedule := (schedule act)[i := (schedule act ! i)\<lparr>availableSpots :=
              availableSpots (schedule act ! i) + numberOfParticipants b0\<rparr>]\<rparr>) (activities st))"
  using assms by (simp_all add: cancel_booking_def Let_def split: option.splits)

text \<open>
  Claim C3. A cancel by the owner of a booking that is not cancelled, whose activity is in
  the store, answers 200; it sets the booking's status to \<^verbatim>\<open>cancelled\<close> and its payment
  status to \<^verbatim>\<open>refunded\<close> and changes no other booking. When a slot of the activity
  matches the booking's stored date, start time and end time, the first such slot gains
  exactly \<^verbatim>\<open>numberOfParticipants\<close> spots and nothing else in the activities changes;
  when no slot matches, the activities are unchanged and the answer is still a success.
\<close>

theorem cancel_restores_matching_slot:
  assumes db: "distinct (map booking_id (bookings st))"
    and da: "distinct (map activity_id (activities st))"
    and b: "b \<in> set (bookings st)" "booking_id b = bid" "booking_user b = uid"
      "status b \<noteq> ''cancelled''"
    and a: "act \<in> set (activities st)" "activity_id act = booking_activity b"
  shows "\<exists>k m. k < length (bookings st) \<and> bookings st ! k = b \<and>
      m < length (activities st) \<and> activities st ! m = act \<and>
      fst (cancel_booking uid bid st) = Inr () \<and>
      response_status 200 (fst (cancel_booking uid bid st)) = 200 \<and>
      bookings (snd (cancel_booking uid bid st))
        = (bookings st)[k := b\<lparr>status := ''cancelled'', paymentStatus := ''refunded''\<rparr>] \<and>
      users (snd (cancel_booking uid bid st)) = users st \<and>
      (\<forall>i. i < length (schedule act) \<and> same_slot (booking_schedule b) (schedule act ! i) \<and>
           (\<forall>j<i. \<not> same_slot (booking_schedule b) (schedule act ! j)) \<longrightarrow>
         activities (snd (cancel_booking uid bid st)) = (activities st)
           [m := act\<lparr>schedule := (schedule act)[i := (schedule act ! i)\<lparr>availableSpots :=
              availableSpots (schedule act ! i) + numberOfParticipants b\<rparr>]\<rparr>]) \<and>
      ((\<forall>s\<in>set (schedule act). \<not> same_slot (booking_schedule b) s) \<longrightarrow>
         activities (snd (cancel_booking uid bid st)) = activities st)"
proof -
  from b(1) obtain k where k: "k < length (bookings st)" "bookings st ! k = b"
    by (auto simp: in_set_conv_nth)
  from a(1) obtain m where m: "m < length (activities st)" "activities st ! m = act"
    by (auto simp: in_set_conv_nth)
  have fb: "find (\<lambda>x. booking_id x = bid \<and> booking_user x = uid) (bookings st) = Some b"
    using find_by_id_distinct [OF db b(1), of "\<lambda>x. booking_user x = uid"] b(2,3) by simp
  have fa: "find (\<lambda>x. activity_id x = booking_activity b) (activities st) = Some act"
    using find_by_id_only [OF da a(1)] a(2) by simp
  note run = cancel_booking_activity_found [OF fb b(4) fa]
  have bk: "bookings (snd (cancel_booking uid bid st))
        = (bookings st)[k := b\<lparr>status := ''cancelled'', paymentStatus := ''refunded''\<rparr>]"
    using cancel_booking_found(1) [OF fb b(4)]
      save_at [OF db k(1), of "b\<lparr>status := ''cancelled'', paymentStatus := ''refunded''\<rparr>"] k(2)
    by simp
  have hit: "activities (snd (cancel_booking uid bid st)) = (activities st)
           [m := act\<lparr>schedule := (schedule act)[i := (schedule act ! i)\<lparr>availableSpots :=
              availableSpots (schedule act ! i) + numberOfParticipants b\<rparr>]\<rparr>]"
    if "i < length (schedule act)" "same_slot (booking_schedule b) (schedule act ! i)"
      "\<forall>j<i. \<not> same_slot (booking_schedule b) (schedule act ! j)" for i
  proof -
    have "find_index (same_slot (booking_schedule b)) (schedule act) = Some i"
      using that by (rule find_index_first)
    with run(2) show ?thesis
      using save_at [OF da m(1), of "act\<lparr>schedule := (schedule act)[i := (schedule act ! i)\<lparr>availableSpots :=
              availableSpots (schedule act ! i) + numberOfParticipants b\<rparr>]\<rparr>"] m(2)
      by simp
  qed
  have miss: "activities (snd (cancel_booking uid bid st)) = activities st"
    if "\<forall>s\<in>set (schedule act). \<not> same_slot (booking_schedule b) s"
  proof -
    from that have "find_index (same_slot (booking_schedule b)) (schedule act) = None"
      by (simp add: find_index_None)
    with run(2) show ?thesis by simp
  qed
  show ?thesis
    apply (rule exI [of _ k], rule exI [of _ m])
    using k m run(1) bk cancel_booking_found(2) [OF fb b(4)] hit miss
    by (simp add: response_status_def)
qed

theorem cancel_restores_matching_slot_witness:
  "distinct (map booking_id (bookings ex_store5)) \<and>
   distinct (map activity_id (activities ex_store5)) \<and>
   ex_booking \<in> set (bookings ex_store5) \<and> booking_id ex_booking = 100 \<and>
   booking_user ex_booking = 7 \<and> status ex_booking \<noteq> ''cancelled'' \<and>
   ex_activity \<in> set (activities ex_store5) \<and>
   activity_id ex_activity = booking_activity ex_booking \<and>
   same_slot (booking_schedule ex_booking) (schedule ex_activity ! 0) \<and>
   fst (cancel_booking 7 100 ex_store5) = Inr () \<and>
   bookings (snd (cancel_booking 7 100 ex_store5))
     = [ex_booking\<lparr>status := ''cancelled'', paymentStatus := ''refunded''\<rparr>] \<and>
   activities (snd (cancel_booking 7 100 ex_store5))
     = [ex_activity\<lparr>schedule := [ex_slot\<lparr>availableSpots := 2\<rparr>]\<rparr>, ex_soldout, ex_inactive] \<and>
   \<not> list_ex (same_slot (booking_schedule ex_stale)) (schedule ex_activity) \<and>
   fst (cancel_booking 7 100 ex_store_stale) = Inr () \<and>
   activities (snd (cancel_booking 7 100 ex_store_stale)) = activities ex_store_stale"
proof -
  have db: "distinct (map booking_id (bookings ex_store5))"
    and da: "distinct (map activity_id (activities ex_store5))"
    and b: "ex_booking \<in> set (bookings ex_store5)" "booking_id ex_booking = 100"
      "booking_user ex_booking = 7" "status ex_booking \<noteq> ''cancelled''"
    and a: "ex_activity \<in> set (activities ex_store5)"
      "activity_id ex_activity = booking_activity ex_booking"
    and s: "same_slot (booking_schedule ex_booking) (schedule ex_activity ! 0)"
    by (simp_all add: ex_defs same_slot_def)
  from cancel_restores_matching_slot [OF db da b a]
  obtain k m where k: "k < length (bookings ex_store5)"
    and m: "m < length (activities ex_store5)" "activities ex_store5 ! m = ex_activity"
    and r: "fst (cancel_booking 7 100 ex_store5) = Inr ()"
    and bk: "bookings (snd (cancel_booking 7 100 ex_store5))
        = (bookings ex_store5)[k := ex_booking\<lparr>status := ''cancelled'', paymentStatus := ''refunded''\<rparr>]"
    and hit: "\<forall>i. i < length (schedule ex_activity) \<and>
           same_slot (booking_schedule ex_booking) (schedule ex_activity ! i) \<and>
           (\<forall>j<i. \<not> same_slot (booking_schedule ex_booking) (schedule ex_activity ! j)) \<longrightarrow>
         activities (snd (cancel_booking 7 100 ex_store5)) = (activities ex_store5)
           [m := ex_activity\<lparr>schedule := (schedule ex_activity)[i := (schedule ex_activity ! i)\<lparr>availableSpots :=
              availableSpots (schedule ex_activity ! i) + numberOfParticipants ex_booking\<rparr>]\<rparr>]"
    by blast
  from k have k0: "k = 0" by (simp add: ex_defs)
  have m0: "m = 0"
  proof (rule ccontr)
    assume "m \<noteq> 0"
    with m(1) have "m = 1 \<or> m = 2" by (auto simp: ex_defs)
    with m(2) show False by (auto simp: ex_defs)
  qed
  from hit [rule_format, of 0] s
  have "activities (snd (cancel_booking 7 100 ex_store5)) = (activities ex_store5)
           [m := ex_activity\<lparr>schedule := (schedule ex_activity)[0 := (schedule ex_activity ! 0)\<lparr>availableSpots :=
              availableSpots (schedule ex_activity ! 0) + numberOfParticipants ex_booking\<rparr>]\<rparr>]"
    by (simp add: ex_activity_def)
  then have acts: "activities (snd (cancel_booking 7 100 ex_store5))
     = [ex_activity\<lparr>schedule := [ex_slot\<lparr>availableSpots := 2\<rparr>]\<rparr>, ex_soldout, ex_inactive]"
    unfolding m0 by (simp add: ex_store5_def ex_activity_def ex_slot_def ex_booking_def)
  from bk have "bookings (snd (cancel_booking 7 100 ex_store5))
     = [ex_booking\<lparr>status := ''cancelled'', paymentStatus := ''refunded''\<rparr>]"
    unfolding k0 by (simp add: ex_store5_def)
  moreover have "fst (cancel_booking 7 100 ex_store_stale) = Inr () \<and>
      activities (snd (cancel_booking 7 100 ex_store_stale)) = activities ex_store_stale"
  proof -
    have db': "distinct (map booking_id (bookings ex_store_stale))"
      and da': "distinct (map activity_id (activities ex_store_stale))"
      and b': "ex_stale \<in> set (bookings ex_store_stale)" "booking_id ex_stale = 100"
        "booking_user ex_stale = 7" "status ex_stale \<noteq> ''cancelled''"
      and a': "ex_activity \<in> set (activities ex_store_stale)"
        "activity_id ex_activity = booking_activity ex_stale"
      and n: "\<forall>s\<in>set (schedule ex_activity). \<not> same_slot (booking_schedule ex_stale) s"
      by (simp_all add: ex_defs ex_stale_def ex_store_stale_def same_slot_def)
    from cancel_restores_matching_slot [OF db' da' b' a'] n
    show ?thesis by blast
  qed
  moreover have "\<not> list_ex (same_slot (booking_schedule ex_stale)) (schedule ex_activity)"
    by (simp add: ex_defs ex_stale_def same_slot_def)
  ultimately show ?thesis using db da b a s r acts by blast
qed

text \<open>
  Claim C4. A cancel of a booking that is already cancelled fails with AlreadyCancelled (400)
  and leaves the whole store as it was; and after any cancel that found the booking, a
  repeated cancel fails with AlreadyCancelled and changes nothing, so no spot is credited
  twice.
\<close>

theorem cancel_already_cancelled:
  assumes db: "distinct (map booking_id (bookings st))"
  shows "(\<forall>b\<in>set (bookings st).
            booking_id b = bid \<and> booking_user b = uid \<and> status b = ''cancelled'' \<longrightarrow>
            cancel_booking uid bid st = (Inl AlreadyCancelled, st)) \<and>
         http_status AlreadyCancelled = 400 \<and>
         (\<forall>r st1. cancel_booking uid bid st = (r, st1) \<and> r \<noteq> Inl NotFound \<longrightarrow>
            cancel_booking uid bid st1 = (Inl AlreadyCancelled, st1))"
proof (intro conjI ballI allI impI)
  fix b
  assume b: "b \<in> set (bookings st)"
    and h: "booking_id b = bid \<and> booking_user b = uid \<and> status b = ''cancelled''"
  have "find (\<lambda>x. booking_id x = bid \<and> booking_user x = uid) (bookings st) = Some b"
    using find_by_id_distinct [OF db b, of "\<lambda>x. booking_user x = uid"] h by simp
  with h show "cancel_booking uid bid st = (Inl AlreadyCancelled, st)"
    by (simp add: cancel_booking_def)
next
  show "http_status AlreadyCancelled = 400" by simp
next
  fix r st1
  assume run: "cancel_booking uid bid st = (r, st1) \<and> r \<noteq> Inl NotFound"
  let ?P = "\<lambda>x. booking_id x = bid \<and> booking_user x = uid"
  show "cancel_booking uid bid st1 = (Inl AlreadyCancelled, st1)"
  proof (cases "find ?P (bookings st)")
    case None
    with run show ?thesis by (auto simp: cancel_booking_def)
  next
    case (Some b0)
    then have b0: "b0 \<in> set (bookings st)" "booking_id b0 = bid" "booking_user b0 = uid"
      by (auto simp: find_Some_iff)
    show ?thesis
    proof (cases "status b0 = ''cancelled''")
      case True
      with Some have "cancel_booking uid bid st = (Inl AlreadyCancelled, st)"
        by (simp add: cancel_booking_def)
      with run show ?thesis by simp
    next
      case False
      let ?b = "b0\<lparr>status := ''cancelled'', paymentStatus := ''refunded''\<rparr>"
      from b0(1) obtain k where k: "k < length (bookings st)" "bookings st ! k = b0"
        by (auto simp: in_set_conv_nth)
      from run have st1: "st1 = snd (cancel_booking uid bid st)" by simp
      have bk: "bookings st1 = (bookings st)[k := ?b]"
        unfolding st1 using cancel_booking_found(1) [OF Some False] save_at [OF db k(1), of ?b] k(2)
        by simp
      have d1: "distinct (map booking_id (bookings st1))"
        unfolding bk using distinct_ids_update [OF db k(1), of ?b] k(2) by simp
      have in1: "?b \<in> set (bookings st1)"
        unfolding bk using k(1) by (simp add: set_update_memI)
      have "find ?P (bookings st1) = Some ?b"
        using find_by_id_distinct [OF d1 in1, of "\<lambda>x. booking_user x = uid"] b0(2,3) by simp
      then show ?thesis by (simp add: cancel_booking_def)
    qed
  qed
qed

theorem cancel_already_cancelled_witness:
  "distinct (map booking_id (bookings ex_store_cancelled)) \<and>
   distinct (map booking_id (bookings ex_store5)) \<and>
   cancel_booking 7 100 ex_store_cancelled = (Inl AlreadyCancelled, ex_store_cancelled) \<and>
   fst (cancel_booking 7 100 ex_store5) = Inr () \<and>
   cancel_booking 7 100 (snd (cancel_booking 7 100 ex_store5))
     = (Inl AlreadyCancelled, snd (cancel_booking 7 100 ex_store5))"
proof -
  have d1: "distinct (map booking_id (bookings ex_store_cancelled))"
    and d2: "distinct (map booking_id (bookings ex_store5))"
    by (simp_all add: ex_defs)
  have m: "ex_booking\<lparr>status := ''cancelled'', paymentStatus := ''refunded''\<rparr>
      \<in> set (bookings ex_store_cancelled)"
    by (simp add: ex_store_cancelled_def)
  have h: "booking_id (ex_booking\<lparr>status := ''cancelled'', paymentStatus := ''refunded''\<rparr>) = 100 \<and>
      booking_user (ex_booking\<lparr>status := ''cancelled'', paymentStatus := ''refunded''\<rparr>) = 7 \<and>
      status (ex_booking\<lparr>status := ''cancelled'', paymentStatus := ''refunded''\<rparr>) = ''cancelled''"
    by (simp add: ex_booking_def)
  note all = cancel_already_cancelled [OF d1, of 100 7, THEN conjunct1]
  have first: "cancel_booking 7 100 ex_store_cancelled = (Inl AlreadyCancelled, ex_store_cancelled)"
    by (rule mp [OF bspec [OF all m] h])
  have ok: "fst (cancel_booking 7 100 ex_store5) = Inr ()"
    by (simp add: cancel_booking_def ex_defs same_slot_def)
  have run: "cancel_booking 7 100 ex_store5 = (Inr (), snd (cancel_booking 7 100 ex_store5)) \<and>
      (Inr () :: failure + unit) \<noteq> Inl NotFound"
    using ok by (simp add: prod_eq_iff)
  note again = cancel_already_cancelled [OF d2, of 100 7, THEN conjunct2, THEN conjunct2, rule_format]
  have "cancel_booking 7 100 (snd (cancel_booking 7 100 ex_store5))
     = (Inl AlreadyCancelled, snd (cancel_booking 7 100 ex_store5))"
    by (rule again [OF run])
  with d1 d2 first ok show ?thesis by blast
qed

section \<open>Status update by an administrator\<close>

lemma filter_update_outside:
  "k < length xs \<Longrightarrow> \<not> P (xs ! k) \<Longrightarrow> \<not> P y \<Longrightarrow> filter P (xs[k := y]) = filter P xs"
proof (induction xs arbitrary: k)
  case Nil
  then show ?case by simp
next
  case (Cons x xs)
  then show ?case by (cases k) auto
qed

text \<open>
  Claim C6. The status update of the admin route leaves the activities, and so every
  \<^verbatim>\<open>availableSpots\<close>, and the users as they were, whatever the new status is
  (\<^verbatim>\<open>cancelled\<close> included); of the bookings it changes at most the status and the payment
  status, and only of a booking with the given id.
\<close>

theorem update_status_frame:
  "activities (snd (update_status bid s p st)) = activities st \<and>
   users (snd (update_status bid s p st)) = users st \<and>
   map (\<lambda>b. b\<lparr>status := [], paymentStatus := []\<rparr>) (bookings (snd (update_status bid s p st)))
     = map (\<lambda>b. b\<lparr>status := [], paymentStatus := []\<rparr>) (bookings st) \<and>
   filter (\<lambda>b. booking_id b \<noteq> bid) (bookings (snd (update_status bid s p st)))
     = filter (\<lambda>b. booking_id b \<noteq> bid) (bookings st)"
proof (cases "find_index (\<lambda>b. booking_id b = bid) (bookings st)")
  case None
  then show ?thesis by (simp add: update_status_def Let_def)
next
  case (Some k)
  from find_index_Some [OF Some] have k: "k < length (bookings st)" "booking_id (bookings st ! k) = bid"
    by auto
  let ?b = "(bookings st ! k)\<lparr>status := s, paymentStatus := p\<rparr>"
  have m: "map (\<lambda>b. b\<lparr>status := [], paymentStatus := []\<rparr>) ((bookings st)[k := ?b])
     = map (\<lambda>b. b\<lparr>status := [], paymentStatus := []\<rparr>) (bookings st)"
    using k(1) by (simp add: map_update list_update_same_conv)
  have f: "filter (\<lambda>b. booking_id b \<noteq> bid) ((bookings st)[k := ?b])
     = filter (\<lambda>b. booking_id b \<noteq> bid) (bookings st)"
    using k by (intro filter_update_outside) simp_all
  from Some m f show ?thesis by (simp add: update_status_def Let_def)
qed

section \<open>Soft delete\<close>

lemma find_index_by_id:
  assumes "distinct (map idf xs)" and "k < length xs"
  shows "find_index (\<lambda>x. idf x = idf (xs ! k)) xs = Some k"
proof (rule find_index_first)
  show "k < length xs" by fact
  show "idf (xs ! k) = idf (xs ! k)" by simp
  show "\<forall>j<k. \<not> idf (xs ! j) = idf (xs ! k)"
  proof (intro allI impI)
    fix j
    assume "j < k"
    with assms have "map idf xs ! j \<noteq> map idf xs ! k"
      using nth_eq_iff_index_eq [of "map idf xs" j k] by simp
    with \<open>j < k\<close> assms(2) show "\<not> idf (xs ! j) = idf (xs ! k)" by simp
  qed
qed

lemma filter_update_hidden:
  "distinct (map idf xs) \<Longrightarrow> k < length xs \<Longrightarrow> \<not> P y \<Longrightarrow>
     filter P (xs[k := y]) = filter (\<lambda>x. P x \<and> idf x \<noteq> idf (xs ! k)) xs"
proof (induction xs arbitrary: k)
  case Nil
  then show ?case by simp
next
  case (Cons x xs)
  show ?case
  proof (cases k)
    case 0
    from Cons.prems have "idf x \<notin> idf ` set xs" by simp
    then have "\<forall>z\<in>set xs. idf z \<noteq> idf x" by (metis image_eqI)
    then have "filter (\<lambda>z. P z \<and> idf z \<noteq> idf x) xs = filter P xs"
      by (intro filter_cong) auto
    with 0 Cons.prems show ?thesis by simp
  next
    case (Suc k')
    with Cons.prems have "idf x \<noteq> idf (xs ! k')" by auto
    with Suc Cons.prems Cons.IH [of k'] show ?thesis by simp
  qed
qed

text \<open>
  Claim C9. The soft delete of an activity of the store sets only its \<^verbatim>\<open>isActive\<close> flag
  to false: the bookings, the users, every schedule and every other activity are as before.
  Afterwards the listing of active activities is the old listing without that activity, and
  the activity is still returned in full by id.
\<close>

theorem soft_delete_frame:
  assumes da: "distinct (map activity_id (activities st))"
    and a: "a \<in> set (activities st)"
  shows "\<exists>k. k < length (activities st) \<and> activities st ! k = a \<and>
      soft_delete (activity_id a) st
        = (Inr (), st\<lparr>activities := (activities st)[k := a\<lparr>isActive := False\<rparr>]\<rparr>) \<and>
      bookings (snd (soft_delete (activity_id a) st)) = bookings st \<and>
      users (snd (soft_delete (activity_id a) st)) = users st \<and>
      map schedule (activities (snd (soft_delete (activity_id a) st)))
        = map schedule (activities st) \<and>
      list_active (snd (soft_delete (activity_id a) st))
        = filter (\<lambda>s. summary_id s \<noteq> activity_id a) (list_active st) \<and>
      activity_id a \<notin> summary_id ` set (list_active (snd (soft_delete (activity_id a) st))) \<and>
      get_by_id (activity_id a) (snd (soft_delete (activity_id a) st))
        = Inr (a\<lparr>isActive := False\<rparr>)"
proof -
  from a obtain k where k: "k < length (activities st)" "activities st ! k = a"
    by (auto simp: in_set_conv_nth)
  let ?a' = "a\<lparr>isActive := False\<rparr>"
  let ?acts' = "(activities st)[k := ?a']"
  have fi: "find_index (\<lambda>x. activity_id x = activity_id a) (activities st) = Some k"
    using find_index_by_id [OF da k(1)] k(2) by simp
  have run: "soft_delete (activity_id a) st = (Inr (), st\<lparr>activities := ?acts'\<rparr>)"
    using fi k(2) by (simp add: soft_delete_def)
  have sched: "map schedule ?acts' = map schedule (activities st)"
    using k by (simp add: map_update list_update_same_conv)
  have "filter isActive ?acts'
      = filter (\<lambda>x. isActive x \<and> activity_id x \<noteq> activity_id a) (activities st)"
    using filter_update_hidden [OF da k(1), of isActive ?a'] k(2) by simp
  then have listing: "list_active (st\<lparr>activities := ?acts'\<rparr>)
      = filter (\<lambda>s. summary_id s \<noteq> activity_id a) (list_active st)"
    by (simp add: list_active_def filter_map comp_def formatted_def conj_commute)
  have d': "distinct (map activity_id ?acts')"
    using distinct_ids_update [OF da k(1), of ?a'] k(2) by simp
  have "?a' \<in> set ?acts'"
    using k(1) by (simp add: set_update_memI)
  from find_by_id_only [OF d' this]
  have get: "get_by_id (activity_id a) (st\<lparr>activities := ?acts'\<rparr>) = Inr ?a'"
    by (simp add: get_by_id_def)
  have hidden: "activity_id a \<notin> summary_id ` set (list_active (st\<lparr>activities := ?acts'\<rparr>))"
    unfolding listing by auto
  show ?thesis
    apply (rule exI [of _ k])
    using k run sched listing get hidden by simp
qed

theorem soft_delete_frame_witness:
  "distinct (map activity_id (activities ex_store5)) \<and> ex_soldout \<in> set (activities ex_store5) \<and>
   fst (soft_delete 3 ex_store5) = Inr () \<and>
   bookings (snd (soft_delete 3 ex_store5)) = bookings ex_store5 \<and>
   list_active ex_store5 = [formatted ex_activity, formatted ex_soldout] \<and>
   list_active (snd (soft_delete 3 ex_store5)) = [formatted ex_activity] \<and>
   get_by_id 3 (snd (soft_delete 3 ex_store5)) = Inr (ex_soldout\<lparr>isActive := False\<rparr>)"
proof -
  have d: "distinct (map activity_id (activities ex_store5))"
    and m: "ex_soldout \<in> set (activities ex_store5)"
    by (simp_all add: ex_defs)
  have id3: "activity_id ex_soldout = 3"
    by (simp add: ex_soldout_def)
  have l: "list_active ex_store5 = [formatted ex_activity, formatted ex_soldout]"
    by (simp add: list_active_def ex_defs)
  from soft_delete_frame [OF d m] obtain k where
    "soft_delete 3 ex_store5
        = (Inr (), ex_store5\<lparr>activities := (activities ex_store5)[k := ex_soldout\<lparr>isActive := False\<rparr>]\<rparr>)"
    "bookings (snd (soft_delete 3 ex_store5)) = bookings ex_store5"
    "list_active (snd (soft_delete 3 ex_store5))
        = filter (\<lambda>s. summary_id s \<noteq> 3) (list_active ex_store5)"
    "get_by_id 3 (snd (soft_delete 3 ex_store5)) = Inr (ex_soldout\<lparr>isActive := False\<rparr>)"
    unfolding id3 by blast
  moreover have "filter (\<lambda>s. summary_id s \<noteq> 3) (list_active ex_store5) = [formatted ex_activity]"
    unfolding l by (simp add: formatted_def ex_defs)
  ultimately show ?thesis using d m l by simp
qed

section \<open>The handlers keep the ids of the collections\<close>

text \<open>
  The distinctness of the \<^verbatim>\<open>_id\<close>s that the theorems assume is kept by the booking
  handlers: they write a document back under the id it was read with.
\<close>

lemma save_keeps_ids:
  "d0 \<in> set xs \<Longrightarrow> idf d0 = idf d \<Longrightarrow> map idf (save idf d xs) = map idf xs"
  by (induction xs) auto

lemma find_mem: "find P xs = Some x \<Longrightarrow> x \<in> set xs \<and> P x"
  by (auto simp: find_Some_iff)

lemma create_booking_keeps_ids:
  "map activity_id (activities (snd (create_booking M uid activityId st)))
     = map activity_id (activities st)"
proof (cases "\<exists>b st'. create_booking M uid activityId st = (Inr b, st')")
  case True
  then obtain b st' where ok: "create_booking M uid activityId st = (Inr b, st')" by blast
  then obtain aid act i where
    act: "find (\<lambda>a. activity_id a = aid \<and> isActive a) (activities st) = Some act"
    and st': "st' = st\<lparr>bookings := bookings st @ [b],
             activities := save activity_id
               (act\<lparr>schedule := (schedule act)
                  [i := (schedule act ! i)\<lparr>availableSpots := availableSpots (schedule act ! i) - 1\<rparr>]\<rparr>)
               (activities st)\<rparr>"
    by (rule create_booking_Inr)
  from find_mem [OF act] have "act \<in> set (activities st)" by simp
  then show ?thesis
    unfolding ok st' by (simp add: save_keeps_ids [of act])
next
  case False
  then have "snd (create_booking M uid activityId st) = st"
    by (auto simp: create_booking_def Let_def split: option.splits)
  then show ?thesis by simp
qed

lemma cancel_booking_keeps_ids:
  "map activity_id (activities (snd (cancel_booking uid bid st))) = map activity_id (activities st)"
  "map booking_id (bookings (snd (cancel_booking uid bid st))) = map booking_id (bookings st)"
proof -
  let ?P = "\<lambda>b. booking_id b = bid \<and> booking_user b = uid"
  show "map booking_id (bookings (snd (cancel_booking uid bid st))) = map booking_id (bookings st)"
  proof (cases "find ?P (bookings st)")
    case None
    then show ?thesis by (simp add: cancel_booking_def)
  next
    case (Some b0)
    show ?thesis
    proof (cases "status b0 = ''cancelled''")
      case True
      with Some show ?thesis by (simp add: cancel_booking_def)
    next
      case False
      from find_mem [OF Some] have "b0 \<in> set (bookings st)" by simp
      then show ?thesis
        using cancel_booking_found(1) [OF Some False]
        by (simp add: save_keeps_ids [of b0])
    qed
  qed
  show "map activity_id (activities (snd (cancel_booking uid bid st))) = map activity_id (activities st)"
  proof (cases "find ?P (bookings st)")
    case None
    then show ?thesis by (simp add: cancel_booking_def)
  next
    case b0: (Some b0)
    show ?thesis
    proof (cases "status b0 = ''cancelled''")
      case True
      with b0 show ?thesis by (simp add: cancel_booking_def)
    next
      case False
      show ?thesis
      proof (cases "find (\<lambda>a. activity_id a = booking_activity b0) (activities st)")
        case None
        with b0 False show ?thesis by (simp add: cancel_booking_def Let_def)
      next
        case (Some act)
        from find_mem [OF Some] have "act \<in> set (activities st)" by simp
        then show ?thesis
          using cancel_booking_activity_found(2) [OF b0 False Some]
          by (simp add: save_keeps_ids [of act] split: option.splits)
      qed
    qed
  qed
qed

lemma step_keeps_distinct_activity_ids:
  "distinct (map activity_id (activities st)) \<Longrightarrow>
     distinct (map activity_id (activities (step r st)))"
  by (cases r) (simp_all add: create_booking_keeps_ids cancel_booking_keeps_ids)

section \<open>Sequences of reservations and cancellations keep the spots non-negative\<close>














section \<open>Registration\<close>

text \<open>
  Claim C8, as amended. Every successful registration appends one user whose e-mail address
  is the submitted one as sanitized at intake (trimmed, then normalized); that user has the
  role \<^verbatim>\<open>admin\<close> exactly when this sanitized address is the literal
  \<^verbatim>\<open>admin@example.com\<close>, and the role \<^verbatim>\<open>user\<close> for every other sanitized address.
  In particular a registration that submits the literal gets the role \<^verbatim>\<open>admin\<close>, the
  normalization leaving the literal as it is.
\<close>

theorem register_role:
  "register E nid body st = (Inr u, st') \<longrightarrow>
     users st' = users st @ [u] \<and>
     email u = normalizeEmail E (trim (to_str (r_email body))) \<and>
     (email u = ''admin@example.com'' \<longrightarrow> role u = ''admin'') \<and>
     (email u \<noteq> ''admin@example.com'' \<longrightarrow> role u = ''user'') \<and>
     (r_email body = Some ''admin@example.com'' \<and>
      normalizeEmail E ''admin@example.com'' = ''admin@example.com'' \<longrightarrow> role u = ''admin'')"
proof
  assume ok: "register E nid body st = (Inr u, st')"
  have t: "trim ''admin@example.com'' = ''admin@example.com''"
    by (simp add: trim_def is_space_def)
  from ok have base: "users st' = users st @ [u]"
    "email u = normalizeEmail E (trim (to_str (r_email body)))"
    "role u = (if email u = ''admin@example.com'' then ''admin'' else ''user'')"
    by (auto simp: register_def Let_def split: if_splits option.splits)
  have "role u = ''admin''"
    if "r_email body = Some ''admin@example.com''"
      "normalizeEmail E ''admin@example.com'' = ''admin@example.com''"
    using base(2,3) that t by (simp add: to_str_def)
  with base show "users st' = users st @ [u] \<and>
     email u = normalizeEmail E (trim (to_str (r_email body))) \<and>
     (email u = ''admin@example.com'' \<longrightarrow> role u = ''admin'') \<and>
     (email u \<noteq> ''admin@example.com'' \<longrightarrow> role u = ''user'') \<and>
     (r_email body = Some ''admin@example.com'' \<and>
      normalizeEmail E ''admin@example.com'' = ''admin@example.com'' \<longrightarrow> role u = ''admin'')"
    by simp
qed

theorem register_role_witness:
  "(\<exists>u st'. register ex_email_js 500 ex_register_admin ex_store = (Inr u, st') \<and>
      email u = ''admin@example.com'' \<and> role u = ''admin'') \<and>
   (\<exists>u st'. register ex_email_js 501 ex_register_alice ex_store = (Inr u, st') \<and>
      email u = ''alice@example.com'' \<and> role u = ''user'')"
proof -
  have "\<exists>u st'. register ex_email_js 500 ex_register_admin ex_store = (Inr u, st')"
    by (simp add: register_def register_validators_def check_def to_str_def trim_def
        is_space_def isLength_def matches_password_def matches_phone_def is_digit_def
        is_letter_def ex_email_js_def to_lower_def ex_register_admin_def ex_store_def Let_def)
  then obtain u st' where r: "register ex_email_js 500 ex_register_admin ex_store = (Inr u, st')"
    by blast
  have e: "normalizeEmail ex_email_js (trim (to_str (r_email ex_register_admin))) = ''admin@example.com''"
    by (simp add: ex_email_js_def to_lower_def ex_register_admin_def to_str_def trim_def is_space_def)
  from register_role [rule_format, OF r] e
  have "email u = ''admin@example.com'' \<and> role u = ''admin''"
    by simp
  with r have first: "\<exists>u st'. register ex_email_js 500 ex_register_admin ex_store = (Inr u, st') \<and>
      email u = ''admin@example.com'' \<and> role u = ''admin''"
    by blast
  have "\<exists>u st'. register ex_email_js 501 ex_register_alice ex_store = (Inr u, st')"
    by (simp add: register_def register_validators_def check_def to_str_def trim_def
        is_space_def isLength_def matches_password_def matches_phone_def is_digit_def
        is_letter_def ex_email_js_def to_lower_def ex_register_alice_def ex_store_def Let_def)
  then obtain v st2 where r2: "register ex_email_js 501 ex_register_alice ex_store = (Inr v, st2)"
    by blast
  have e2: "normalizeEmail ex_email_js (trim (to_str (r_email ex_register_alice))) = ''alice@example.com''"
    by (simp add: ex_email_js_def to_lower_def ex_register_alice_def to_str_def trim_def is_space_def)
  from register_role [rule_format, OF r2] e2
  have "email v = ''alice@example.com'' \<and> role v = ''user''"
    by simp
  with r2 have "\<exists>u st'. register ex_email_js 501 ex_register_alice ex_store = (Inr u, st') \<and>
      email u = ''alice@example.com'' \<and> role u = ''user''"
    by blast
  with first show ?thesis by blast
qed

text \<open>
  The claim as stated, that a registration with any other e-mail address than the literal
  gives the role \<^verbatim>\<open>user\<close>, fails: the role is decided after the sanitizers have run, so
  a submitted address with a leading blank, or with capital letters, that is sanitized to
  the literal gets the role \<^verbatim>\<open>admin\<close>.
\<close>

theorem register_other_address_admin_counterexample:
  "r_email ex_register_spaced \<noteq> Some ''admin@example.com'' \<and>
   fst (register ex_email_js 500 ex_register_spaced ex_store)
     = Inr \<lparr>user_id = 500, name = ''Ada'', email = ''admin@example.com'',
            password = ''secret1'', phone = ''0123456789'', role = ''admin''\<rparr> \<and>
   r_email ex_register_upper \<noteq> Some ''admin@example.com'' \<and>
   fst (register ex_email_js 500 ex_register_upper ex_store)
     = Inr \<lparr>user_id = 500, name = ''Ada'', email = ''admin@example.com'',
            password = ''secret1'', phone = ''0123456789'', role = ''admin''\<rparr>"
  by (simp add: register_def register_validators_def check_def to_str_def trim_def
      is_space_def isLength_def matches_password_def matches_phone_def is_digit_def
      is_letter_def ex_email_js_def to_lower_def ex_register_spaced_def ex_register_upper_def
      ex_store_def Let_def)

section \<open>Validation of activity create and update\<close>

text \<open>
  For each of title, description, price, duration, capacity and location, when the field is
  provided, the update chain rejects it exactly when the create chain does; and an update
  that passes the checks and the casting answers not-found when no activity has the id.
\<close>

lemma mem_check: "q \<in> fst ` set (check ok p m) \<longleftrightarrow> \<not> ok \<and> q = p"
  by (auto simp: check_def)

lemma each_slot_paths: "Body f \<notin> fst ` set (each_slot ok field msg body)"
  by (auto simp: each_slot_def check_def split: if_splits)

lemma mem_optional:
  "q \<in> fst ` set (case x of None \<Rightarrow> [] | Some raw \<Rightarrow> f raw)
     \<longleftrightarrow> (case x of None \<Rightarrow> False | Some raw \<Rightarrow> q \<in> fst ` set (f raw))"
  by (cases x) simp_all

lemma case_option_same: "(case x of None \<Rightarrow> c | Some raw \<Rightarrow> c) = c"
  by (cases x) simp_all

lemmas chain_simps = set_append image_Un Un_iff mem_check mem_optional each_slot_paths

lemma update_title_agrees:
  "b_title body = Some raw \<Longrightarrow>
     Body ''title'' \<in> fst ` set (update_validators V body)
       \<longleftrightarrow> Body ''title'' \<in> fst ` set (create_validators V body)"
  unfolding update_validators_def create_validators_def Let_def
  by (simp only: chain_simps) (simp add: case_option_same to_str_def cong: option.case_cong)

lemma update_description_agrees:
  "b_description body = Some raw \<Longrightarrow>
     Body ''description'' \<in> fst ` set (update_validators V body)
       \<longleftrightarrow> Body ''description'' \<in> fst ` set (create_validators V body)"
  unfolding update_validators_def create_validators_def Let_def
  by (simp only: chain_simps) (simp add: case_option_same to_str_def cong: option.case_cong)

lemma update_price_agrees:
  "b_price body = Some raw \<Longrightarrow>
     Body ''price'' \<in> fst ` set (update_validators V body)
       \<longleftrightarrow> Body ''price'' \<in> fst ` set (create_validators V body)"
  unfolding update_validators_def create_validators_def Let_def
  by (simp only: chain_simps) (simp add: case_option_same to_str_def cong: option.case_cong)

lemma update_duration_agrees:
  "b_duration body = Some raw \<Longrightarrow>
     Body ''duration'' \<in> fst ` set (update_validators V body)
       \<longleftrightarrow> Body ''duration'' \<in> fst ` set (create_validators V body)"
  unfolding update_validators_def create_validators_def Let_def
  by (simp only: chain_simps) (simp add: case_option_same to_str_def cong: option.case_cong)

lemma update_capacity_agrees:
  "b_capacity body = Some raw \<Longrightarrow>
     Body ''capacity'' \<in> fst ` set (update_validators V body)
       \<longleftrightarrow> Body ''capacity'' \<in> fst ` set (create_validators V body)"
  unfolding update_validators_def create_validators_def Let_def
  by (simp only: chain_simps) (simp add: case_option_same to_str_def cong: option.case_cong)

lemma update_location_agrees:
  "b_location body = Some raw \<Longrightarrow>
     Body ''location'' \<in> fst ` set (update_validators V body)
       \<longleftrightarrow> Body ''location'' \<in> fst ` set (create_validators V body)"
  unfolding update_validators_def create_validators_def Let_def
  by (simp only: chain_simps) (simp add: case_option_same to_str_def cong: option.case_cong)

lemma update_activity_not_found:
  assumes "update_validators V body = []" and "cast_update body = Some upd"
    and "\<forall>a\<in>set (activities st). activity_id a \<noteq> aid"
  shows "update_activity V cast_update aid body st = (Inl NotFound, st)"
proof -
  from assms(3) have "find_index (\<lambda>a. activity_id a = aid) (activities st) = None"
    by (simp add: find_index_None)
  with assms(1,2) show ?thesis
    by (simp add: update_activity_def)
qed

text \<open>
  Claim C7 says that the update enforces, for every provided field, the constraints of the
  create, the schedule slots' included. The update route has no chain for the schedule:
  for a body that sets the schedule to one slot with the start time \<^verbatim>\<open>25:61\<close>, whatever
  the library checks answer, the update's validators report nothing and its handler never
  answers with a validation error, while the create's validators report the start time of
  slot 0 and its handler answers with the validation error.
\<close>

theorem update_skips_schedule_checks:
  "update_validators V ex_bad_update = [] \<and>
   (Slot 0 ''startTime'', ''Valid start time is required (HH:MM format)'')
      \<in> set (create_validators V ex_bad_update) \<and>
   (\<forall>errors. fst (update_activity V cast_update aid ex_bad_update st) \<noteq> Inl (ValidationError errors)) \<and>
   (\<forall>new_activity. \<exists>errors. create_activity V new_activity ex_bad_update st = (Inl (ValidationError errors), st))"
proof -
  have u: "update_validators V ex_bad_update = []"
    by (simp add: update_validators_def ex_bad_update_def)
  have c: "(Slot 0 ''startTime'', ''Valid start time is required (HH:MM format)'')
      \<in> set (create_validators V ex_bad_update)"
    by (simp add: create_validators_def each_slot_def check_def to_str_def ex_bad_update_def)
  from u have "fst (update_activity V cast_update aid ex_bad_update st) \<noteq> Inl (ValidationError errors)" for errors
    by (simp add: update_activity_def Let_def split: option.splits)
  moreover from c have "create_validators V ex_bad_update \<noteq> []" by auto
  then have "\<exists>errors. create_activity V new_activity ex_bad_update st = (Inl (ValidationError errors), st)"
    for new_activity
    by (simp add: create_activity_def Let_def)
  ultimately show ?thesis using u c by blast
qed

end
